theory Spec2Isabelle
  imports Complex_Main
begin

section \<open>Booking lifecycle and incentive engine of the solar-installation backend\<close>

text \<open>
  A shallow embedding of the referral-commission distributor and of the step workflow
  of \<^verbatim>\<open>src/server.ts\<close>. Each table of the persistent store is a list of rows,
  each route handler a function from the store to a response and the store it leaves behind.
\<close>

subsection \<open>JavaScript values\<close>

text \<open>
  A JavaScript string is truthy when it is present and non-empty:
  \<^verbatim>\<open>while (currentId && ...)\<close>, \<^verbatim>\<open>if (!me?.referredBy) break\<close>,
  \<^verbatim>\<open>!lead.certificateUrl\<close>.
\<close>

fun truthy_str :: "string option \<Rightarrow> bool" where
  "truthy_str None = False"
| "truthy_str (Some s) = (s \<noteq> [])"

subsection \<open>Referral graph and upline resolver\<close>

text \<open>
  Table \<^verbatim>\<open>Customer\<close>: the columns the resolver reads. \<^verbatim>\<open>referredBy\<close> is nullable.
\<close>

record Customer =
  c_id :: string
  c_referredBy :: "string option"
  c_level :: int

text \<open>\<^verbatim>\<open>prisma.customer.findUnique({ where: { id } })\<close>\<close>

definition customer_findUnique :: "Customer list \<Rightarrow> string \<Rightarrow> Customer option" where
  "customer_findUnique cs i = find (\<lambda>c. c_id c = i) cs"

text \<open>An entry of the chain: \<^verbatim>\<open>{ id, level }\<close>.\<close>

record ChainEntry =
  u_id :: string
  u_level :: nat

text \<open>
  \<^verbatim>\<open>
  async function getUplineChain(customerId: string, maxLevels = 3) {
    const chain = [];
    let currentId: string | null = customerId;
    let steps = 0;
    while (currentId && steps < maxLevels) {
      const me = await prisma.customer.findUnique({ where: { id: currentId }, select: { referredBy: true } });
      if (!me?.referredBy) break;
      const uplineId = me.referredBy as string;
      chain.push({ id: uplineId, level: steps + 1 });
      currentId = uplineId;
      steps++;
    }
    return chain;
  }
  \<close>
  The loop is the recursive function below on the loop variables
  \<open>chain\<close>, \<open>currentId\<close> and \<open>steps\<close>; it ends because \<open>maxLevels - steps\<close> decreases.
\<close>

function getUplineChain_loop ::
  "Customer list \<Rightarrow> nat \<Rightarrow> ChainEntry list \<Rightarrow> string option \<Rightarrow> nat \<Rightarrow> ChainEntry list" where
  "getUplineChain_loop cs maxLevels chain currentId steps =
     (if truthy_str currentId \<and> steps < maxLevels then
        (case customer_findUnique cs (the currentId) of
           None \<Rightarrow> chain
         | Some me \<Rightarrow>
             if \<not> truthy_str (c_referredBy me) then chain
             else
               let uplineId = the (c_referredBy me) in
               getUplineChain_loop cs maxLevels
                 (chain @ [\<lparr>u_id = uplineId, u_level = steps + 1\<rparr>]) (Some uplineId) (steps + 1))
      else chain)"
  by pat_completeness auto
termination
  by (relation "measure (\<lambda>(cs, maxLevels, chain, currentId, steps). maxLevels - steps)") auto

declare getUplineChain_loop.simps [simp del]

definition getUplineChain :: "Customer list \<Rightarrow> string \<Rightarrow> nat \<Rightarrow> ChainEntry list" where
  "getUplineChain cs customerId maxLevels =
     getUplineChain_loop cs maxLevels [] (Some customerId) 0"

text \<open>
  The referrer of a customer as the loop reads it: the \<^verbatim>\<open>referredBy\<close> of the row with that
  id, when the row exists and the column is a non-empty string.
\<close>

definition referrer :: "Customer list \<Rightarrow> string \<Rightarrow> string option" where
  "referrer cs i =
     (case customer_findUnique cs i of
        None \<Rightarrow> None
      | Some me \<Rightarrow> if truthy_str (c_referredBy me) then c_referredBy me else None)"

text \<open>
  \<open>referrer_chain cs c anc\<close>: following \<^verbatim>\<open>referredBy\<close> from \<open>c\<close> visits exactly the
  customers \<open>anc\<close>, in this order, and the last of them has no referrer. A chain that ends
  is acyclic; on a cycle no such list exists.
\<close>

fun referrer_chain :: "Customer list \<Rightarrow> string \<Rightarrow> string list \<Rightarrow> bool" where
  "referrer_chain cs c [] = (referrer cs c = None)"
| "referrer_chain cs c (a # anc) = (referrer cs c = Some a \<and> referrer_chain cs a anc)"

text \<open>The chain entries for ancestors met from hop \<open>steps + 1\<close> on.\<close>

fun entries_from :: "nat \<Rightarrow> string list \<Rightarrow> ChainEntry list" where
  "entries_from steps [] = []"
| "entries_from steps (a # anc) = \<lparr>u_id = a, u_level = steps + 1\<rparr> # entries_from (steps + 1) anc"

text \<open>
  The walk in the specification's words, without its revisit guard: follow \<^verbatim>\<open>referredBy\<close>
  from a customer, one ancestor per hop, and stop at a customer with no referrer or when
  the given number of hops is used up.
\<close>

fun upline_walk :: "Customer list \<Rightarrow> string \<Rightarrow> nat \<Rightarrow> string list" where
  "upline_walk cs c 0 = []"
| "upline_walk cs c (Suc hops) =
     (case referrer cs c of None \<Rightarrow> [] | Some a \<Rightarrow> a # upline_walk cs a hops)"

text \<open>A malformed graph: two customers who refer each other.\<close>

definition cyclic_customers :: "Customer list" where
  "cyclic_customers =
     [\<lparr>c_id = ''A'', c_referredBy = Some ''B'', c_level = 1\<rparr>,
      \<lparr>c_id = ''B'', c_referredBy = Some ''A'', c_level = 1\<rparr>]"

text \<open>
  A graph with a cycle four hops above P: P was referred by Q, Q by R, R by S, S by T, and T
  by S.
\<close>

definition far_cycle_customers :: "Customer list" where
  "far_cycle_customers =
     [\<lparr>c_id = ''P'', c_referredBy = Some ''Q'', c_level = 4\<rparr>,
      \<lparr>c_id = ''Q'', c_referredBy = Some ''R'', c_level = 3\<rparr>,
      \<lparr>c_id = ''R'', c_referredBy = Some ''S'', c_level = 2\<rparr>,
      \<lparr>c_id = ''S'', c_referredBy = Some ''T'', c_level = 1\<rparr>,
      \<lparr>c_id = ''T'', c_referredBy = Some ''S'', c_level = 1\<rparr>]"

text \<open>A well-formed graph: D was referred by C, C by B, B by A, and A by nobody.\<close>

definition line_customers :: "Customer list" where
  "line_customers =
     [\<lparr>c_id = ''A'', c_referredBy = None, c_level = 0\<rparr>,
      \<lparr>c_id = ''B'', c_referredBy = Some ''A'', c_level = 1\<rparr>,
      \<lparr>c_id = ''C'', c_referredBy = Some ''B'', c_level = 2\<rparr>,
      \<lparr>c_id = ''D'', c_referredBy = Some ''C'', c_level = 3\<rparr>]"

subsection \<open>Numbers\<close>

text \<open>
  A JavaScript number is an IEEE double: a finite number, an infinity or NaN. A finite
  number is a real here, and every arithmetic operation on finite numbers rounds its exact
  result to a double. The rounding is the argument \<open>rnd\<close> of the operations: \<open>rnd x\<close> is the
  double nearest to \<open>x\<close>, an infinity when \<open>x\<close> is too large, zero when it is too small. Zero
  has no sign: the program divides only by the constant 100 and by a total it has found to
  be greater than zero, and it compares with zero but never tells the zeros apart.
\<close>

datatype jsnum = Fin real | PosInf | NegInf | NaN

type_synonym rounding = "real \<Rightarrow> jsnum"

fun js_add :: "rounding \<Rightarrow> jsnum \<Rightarrow> jsnum \<Rightarrow> jsnum" where
  "js_add rnd (Fin a) (Fin b) = rnd (a + b)"
| "js_add rnd NaN _ = NaN"
| "js_add rnd _ NaN = NaN"
| "js_add rnd PosInf NegInf = NaN"
| "js_add rnd NegInf PosInf = NaN"
| "js_add rnd PosInf _ = PosInf"
| "js_add rnd _ PosInf = PosInf"
| "js_add rnd NegInf _ = NegInf"
| "js_add rnd _ NegInf = NegInf"

text \<open>The sign of a number that is not NaN: the product and quotient of infinities follow it.\<close>

fun js_sign :: "jsnum \<Rightarrow> int" where
  "js_sign (Fin a) = (if a = 0 then 0 else if 0 < a then 1 else -1)"
| "js_sign PosInf = 1"
| "js_sign NegInf = -1"
| "js_sign NaN = 0"

definition js_inf :: "int \<Rightarrow> jsnum" where
  "js_inf sg = (if sg = 0 then NaN else if 0 < sg then PosInf else NegInf)"

fun js_mul :: "rounding \<Rightarrow> jsnum \<Rightarrow> jsnum \<Rightarrow> jsnum" where
  "js_mul rnd (Fin a) (Fin b) = rnd (a * b)"
| "js_mul rnd NaN _ = NaN"
| "js_mul rnd _ NaN = NaN"
| "js_mul rnd x y = js_inf (js_sign x * js_sign y)"

fun js_div :: "rounding \<Rightarrow> jsnum \<Rightarrow> jsnum \<Rightarrow> jsnum" where
  "js_div rnd (Fin a) (Fin b) = (if b = 0 then js_inf (js_sign (Fin a)) else rnd (a / b))"
| "js_div rnd NaN _ = NaN"
| "js_div rnd _ NaN = NaN"
| "js_div rnd (Fin a) _ = Fin 0"
| "js_div rnd x (Fin b) = js_inf (js_sign x * (if b < 0 then -1 else 1))"
| "js_div rnd _ _ = NaN"

text \<open>Comparisons: every comparison with NaN is false.\<close>

fun js_lt :: "jsnum \<Rightarrow> jsnum \<Rightarrow> bool" where
  "js_lt (Fin a) (Fin b) = (a < b)"
| "js_lt NaN _ = False"
| "js_lt _ NaN = False"
| "js_lt _ NegInf = False"
| "js_lt PosInf _ = False"
| "js_lt NegInf _ = True"
| "js_lt _ PosInf = True"

definition js_gt :: "jsnum \<Rightarrow> jsnum \<Rightarrow> bool" where
  "js_gt a b = js_lt b a"

definition js_le :: "jsnum \<Rightarrow> jsnum \<Rightarrow> bool" where
  "js_le a b = (a \<noteq> NaN \<and> b \<noteq> NaN \<and> \<not> js_lt b a)"

text \<open>\<^verbatim>\<open>!gross\<close> holds for 0 and NaN; \<^verbatim>\<open>Number.isFinite\<close> for the finite numbers.\<close>

fun truthy_num :: "jsnum \<Rightarrow> bool" where
  "truthy_num (Fin a) = (a \<noteq> 0)"
| "truthy_num NaN = False"
| "truthy_num _ = True"

fun isFinite :: "jsnum \<Rightarrow> bool" where
  "isFinite (Fin a) = True"
| "isFinite _ = False"

text \<open>\<^verbatim>\<open>amounts.reduce((a, b) => a + b, 0)\<close>\<close>

definition js_sum :: "rounding \<Rightarrow> jsnum list \<Rightarrow> jsnum" where
  "js_sum rnd amounts = foldl (js_add rnd) (Fin 0) amounts"

text \<open>
  What the theorems below use of rounding to the nearest double: zero and every double
  round to themselves; the result is never NaN and never of the opposite sign; and a number
  of normal magnitude, between \<open>2\<^sup>-\<^sup>1\<^sup>0\<^sup>2\<^sup>2\<close> and \<open>2\<^sup>1\<^sup>0\<^sup>2\<^sup>3\<close>, rounds to a finite double
  other than zero. Exact arithmetic, \<open>rnd = Fin\<close>, has these properties too.
\<close>

definition double_rounding :: "rounding \<Rightarrow> bool" where
  "double_rounding rnd =
     (rnd 0 = Fin 0
      \<and> (\<forall>x. rnd x \<noteq> NaN)
      \<and> (\<forall>x y. rnd x = Fin y \<longrightarrow> rnd y = Fin y)
      \<and> (\<forall>x. 0 < x \<longrightarrow> \<not> js_lt (rnd x) (Fin 0))
      \<and> (\<forall>x. x < 0 \<longrightarrow> \<not> js_lt (Fin 0) (rnd x))
      \<and> (\<forall>x. 1 / 2 ^ 1022 \<le> \<bar>x\<bar> \<and> \<bar>x\<bar> \<le> 2 ^ 1023 \<longrightarrow> isFinite (rnd x) \<and> rnd x \<noteq> Fin 0))"

subsection \<open>The persistent store\<close>

record Wallet =
  w_customerId :: string
  w_balance :: jsnum

text \<open>
  A commission row; its id and creation time are filled in by the database and are not
  modelled.
\<close>

record Commission =
  m_customerId :: string
  m_fromCustomerId :: string
  m_levelFromDownline :: nat
  m_amount :: jsnum

record MlSettings =
  maxPayoutPercent :: jsnum
  level1Percent :: jsnum
  level2Percent :: jsnum
  level3Percent :: jsnum

text \<open>
  A booking (table \<^verbatim>\<open>Lead\<close>, reached in the code both as \<^verbatim>\<open>prisma.booking\<close> and as
  \<^verbatim>\<open>prisma.lead\<close>). Times are milliseconds since the epoch.
\<close>

record Booking =
  b_id :: string
  b_customerId :: "string option"
  b_totalPayable :: "jsnum option"
  b_createdAt :: int
  b_percent :: int
  b_certificateUrl :: "string option"
  b_certificateGeneratedAt :: "int option"
  b_assignedStaffId :: "string option"

record LeadStep =
  s_id :: string
  s_leadId :: string
  s_name :: string
  s_order :: int
  s_completed :: bool
  s_completedAt :: "int option"
  s_completionNotes :: "string option"
  s_dueDays :: int

record Store =
  customers :: "Customer list"
  wallets :: "Wallet list"
  commissions :: "Commission list"
  mlSettings :: "MlSettings list"
  bookings :: "Booking list"
  leadSteps :: "LeadStep list"

text \<open>A response is an HTTP error (status and message) or the JSON body of a success.\<close>

type_synonym error = "nat \<times> string"

datatype user_type = Admin | Staff | CustomerUser

record AuthUser =
  user_type :: user_type
  sub :: string

subsection \<open>Commission distributor\<close>

text \<open>
  \<^verbatim>\<open>
  async function getMlSettings() {
    let settings = await prisma.mlSettings.findFirst();
    if (!settings) settings = await prisma.mlSettings.create({ data: {} });
    return settings;
  }
  \<close>
  The column defaults of the migration are 4.0, 2.0, 1.0 and 1.0.
\<close>

definition default_settings :: MlSettings where
  "default_settings =
     \<lparr>maxPayoutPercent = Fin 4, level1Percent = Fin 2, level2Percent = Fin 1, level3Percent = Fin 1\<rparr>"

definition getMlSettings :: "Store \<Rightarrow> MlSettings \<times> Store" where
  "getMlSettings st =
     (case mlSettings st of
        [] \<Rightarrow> (default_settings, st\<lparr>mlSettings := [default_settings]\<rparr>)
      | settings # _ \<Rightarrow> (settings, st))"

text \<open>
  \<^verbatim>\<open>
  async function upsertWalletAdd(customerId: string, delta: number) {
    const existing = await prisma.wallet.findUnique({ where: { customerId } });
    if (existing) {
      await prisma.wallet.update({ where: { customerId }, data: { balance: (existing.balance ?? 0) + delta } });
    } else {
      await prisma.wallet.create({ data: { customerId, balance: delta } });
    }
  }
  \<close>
\<close>

definition upsertWalletAdd :: "rounding \<Rightarrow> Wallet list \<Rightarrow> string \<Rightarrow> jsnum \<Rightarrow> Wallet list" where
  "upsertWalletAdd rnd ws customerId delta =
     (case find (\<lambda>w. w_customerId w = customerId) ws of
        Some existing \<Rightarrow>
          map (\<lambda>w. if w_customerId w = customerId
                    then w\<lparr>w_balance := js_add rnd (w_balance existing) delta\<rparr> else w) ws
      | None \<Rightarrow> ws @ [\<lparr>w_customerId = customerId, w_balance = delta\<rparr>])"

text \<open>\<^verbatim>\<open>percents[idx] ?? 0\<close>\<close>

definition percent_at :: "jsnum list \<Rightarrow> nat \<Rightarrow> jsnum" where
  "percent_at percents idx = (if idx < length percents then percents ! idx else Fin 0)"

record Intended =
  i_uplineId :: string
  i_levelFromDownline :: nat
  i_pct :: jsnum

text \<open>
  \<^verbatim>\<open>
  const percents = [settings.level1Percent, settings.level2Percent, settings.level3Percent];
  const intended = chain.map((u, idx) => ({ uplineId: u.id, levelFromDownline: u.level, pct: percents[idx] ?? 0 }));
  \<close>
\<close>

definition intended_of :: "MlSettings \<Rightarrow> ChainEntry list \<Rightarrow> Intended list" where
  "intended_of settings chain =
     (let percents = [level1Percent settings, level2Percent settings, level3Percent settings]
      in map (\<lambda>(idx, u). \<lparr>i_uplineId = u_id u, i_levelFromDownline = u_level u,
                            i_pct = percent_at percents idx\<rparr>) (enumerate 0 chain))"

text \<open>
  \<^verbatim>\<open>
  const cap = (settings.maxPayoutPercent / 100) * gross;
  let amounts = intended.map(x => (x.pct / 100) * gross);
  const total = amounts.reduce((a, b) => a + b, 0);
  if (total > cap && total > 0) {
    const scale = cap / total;
    amounts = amounts.map(a => a * scale);
  }
  \<close>
\<close>

definition scaled_amounts :: "rounding \<Rightarrow> MlSettings \<Rightarrow> Intended list \<Rightarrow> jsnum \<Rightarrow> jsnum list" where
  "scaled_amounts rnd settings intended gross =
     (let cap = js_mul rnd (js_div rnd (maxPayoutPercent settings) (Fin 100)) gross;
          amounts = map (\<lambda>x. js_mul rnd (js_div rnd (i_pct x) (Fin 100)) gross) intended;
          total = js_sum rnd amounts
      in if js_gt total cap \<and> js_gt total (Fin 0)
         then let scale = js_div rnd cap total in map (\<lambda>a. js_mul rnd a scale) amounts
         else amounts)"

record Detail =
  d_uplineId :: string
  d_levelFromDownline :: nat
  d_amount :: jsnum

text \<open>
  \<^verbatim>\<open>
  for (let i = 0; i < intended.length; i++) {
    const amt = amounts[i] ?? 0;
    if (amt <= 0) continue;
    const row = await prisma.commission.create({ data: { customerId: intended[i].uplineId,
        fromCustomerId: sourceId, levelFromDownline: intended[i].levelFromDownline, amount: amt } });
    await upsertWalletAdd(intended[i].uplineId, amt);
    created.push(row);
    details.push({ uplineId: intended[i].uplineId, levelFromDownline: intended[i].levelFromDownline, amount: amt });
  }
  \<close>
  \<open>amounts\<close> is as long as \<open>intended\<close>, so the loop runs over the pairs of the two lists.
\<close>

fun credit_loop ::
  "rounding \<Rightarrow> string \<Rightarrow> (Intended \<times> jsnum) list \<Rightarrow> Store \<Rightarrow> Commission list \<Rightarrow> Detail list
     \<Rightarrow> Store \<times> Commission list \<times> Detail list" where
  "credit_loop rnd sourceId [] st created details = (st, created, details)"
| "credit_loop rnd sourceId ((x, amt) # rest) st created details =
     (if js_le amt (Fin 0) then credit_loop rnd sourceId rest st created details
      else
        let row = \<lparr>m_customerId = i_uplineId x, m_fromCustomerId = sourceId,
                   m_levelFromDownline = i_levelFromDownline x, m_amount = amt\<rparr>;
            st1 = st\<lparr>commissions := commissions st @ [row]\<rparr>;
            st2 = st1\<lparr>wallets := upsertWalletAdd rnd (wallets st1) (i_uplineId x) amt\<rparr>
        in credit_loop rnd sourceId rest st2 (created @ [row])
             (details @ [\<lparr>d_uplineId = i_uplineId x,
                           d_levelFromDownline = i_levelFromDownline x, d_amount = amt\<rparr>]))"

record DistResult =
  r_created :: nat
  r_totalAmount :: jsnum
  r_details :: "Detail list"

text \<open>
  \<^verbatim>\<open>
  async function distributeCommissionForPurchase(sourceId: string, gross: number) {
    const settings = await getMlSettings();
    ...
    const chain = await getUplineChain(sourceId, 3);
    ...
    return { created: created.length, totalAmount: amounts.reduce((a, b) => a + b, 0), details };
  }
  \<close>
\<close>

definition distributeCommissionForPurchase ::
  "rounding \<Rightarrow> Store \<Rightarrow> string \<Rightarrow> jsnum \<Rightarrow> DistResult \<times> Store" where
  "distributeCommissionForPurchase rnd st sourceId gross =
     (let (settings, st0) = getMlSettings st;
          chain = getUplineChain (customers st0) sourceId 3;
          intended = intended_of settings chain;
          amounts = scaled_amounts rnd settings intended gross;
          (st', created, details) = credit_loop rnd sourceId (zip intended amounts) st0 [] []
      in (\<lparr>r_created = length created, r_totalAmount = js_sum rnd amounts, r_details = details\<rparr>, st'))"

text \<open>
  \<^verbatim>\<open>POST /api/referrals/distribute\<close>. \<open>gross\<close> is \<^verbatim>\<open>Number(amount)\<close> of the request body:
  \<^verbatim>\<open>
  if (req.user?.type !== 'customer') return res.status(403).json({ error: 'Forbidden' });
  const sourceId = String(req.user.sub);
  const gross = Number(amount);
  if (!gross || gross <= 0) return res.status(400).json({ error: 'amount required' });
  const result = await distributeCommissionForPurchase(sourceId, gross);
  res.json({ ok: true, distributed: result.created, totalAmount: result.totalAmount, details: result.details });
  \<close>
\<close>

definition referrals_distribute ::
  "rounding \<Rightarrow> Store \<Rightarrow> AuthUser \<Rightarrow> jsnum \<Rightarrow> (error + DistResult) \<times> Store" where
  "referrals_distribute rnd st user gross =
     (if user_type user \<noteq> CustomerUser then (Inl (403, ''Forbidden''), st)
      else if \<not> truthy_num gross \<or> js_le gross (Fin 0) then (Inl (400, ''amount required''), st)
      else let (result, st') = distributeCommissionForPurchase rnd st (sub user) gross
           in (Inr result, st'))"

text \<open>
  \<^verbatim>\<open>POST /api/admin/referrals/distribute-for-booking\<close>:
  \<^verbatim>\<open>
  if (req.user?.type !== 'admin') return res.status(403).json({ error: 'Forbidden' });
  if (!bookingId || typeof bookingId !== 'string') return res.status(400).json({ error: 'bookingId is required' });
  const booking = await prisma.booking.findUnique({ where: { id: bookingId } });
  if (!booking) return res.status(404).json({ error: 'Booking not found' });
  if (!booking.customerId) return res.status(400).json({ error: 'Booking has no customerId' });
  const gross = Number(booking.totalPayable ?? 0);
  if (!Number.isFinite(gross) || gross <= 0)
    return res.status(400).json({ error: 'Booking totalPayable is not set or invalid' });
  const result = await distributeCommissionForPurchase(String(booking.customerId), gross);
  res.json({ ok: true, distributed: result.created, totalAmount: result.totalAmount });
  \<close>
\<close>

definition booking_findUnique :: "Booking list \<Rightarrow> string \<Rightarrow> Booking option" where
  "booking_findUnique bs i = find (\<lambda>b. b_id b = i) bs"

definition admin_distribute_for_booking ::
  "rounding \<Rightarrow> Store \<Rightarrow> AuthUser \<Rightarrow> string option \<Rightarrow> (error + DistResult) \<times> Store" where
  "admin_distribute_for_booking rnd st user bookingId =
     (if user_type user \<noteq> Admin then (Inl (403, ''Forbidden''), st)
      else if \<not> truthy_str bookingId then (Inl (400, ''bookingId is required''), st)
      else case booking_findUnique (bookings st) (the bookingId) of
        None \<Rightarrow> (Inl (404, ''Booking not found''), st)
      | Some booking \<Rightarrow>
          if \<not> truthy_str (b_customerId booking) then (Inl (400, ''Booking has no customerId''), st)
          else
            let gross = (case b_totalPayable booking of None \<Rightarrow> Fin 0 | Some g \<Rightarrow> g) in
            if \<not> isFinite gross \<or> js_le gross (Fin 0)
            then (Inl (400, ''Booking totalPayable is not set or invalid''), st)
            else let (result, st') =
                       distributeCommissionForPurchase rnd st (the (b_customerId booking)) gross
                 in (Inr result, st'))"

subsection \<open>Due days\<close>

text \<open>
  Times are milliseconds since the epoch. \<^verbatim>\<open>getFullYear\<close>, \<^verbatim>\<open>getMonth\<close> and \<^verbatim>\<open>getDate\<close> read a
  time in the zone of the server process, and \<^verbatim>\<open>new Date(year, month, date)\<close> builds one
  there; the program does not fix that zone. As in the language definition, a zone is its
  function \<^verbatim>\<open>LocalTZA(t, isUTC)\<close>: the offset of local time from UTC, in milliseconds, at the
  instant \<open>t\<close> when \<open>isUTC\<close> holds and at the local time \<open>t\<close> otherwise. With it,
  \<^verbatim>\<open>LocalTime(t) = t + LocalTZA(t, true)\<close> and \<^verbatim>\<open>UTC(t) = t - LocalTZA(t, false)\<close>.
\<close>

type_synonym zone = "int \<Rightarrow> bool \<Rightarrow> int"

definition msPerDay :: int where
  "msPerDay = 1000 * 60 * 60 * 24"

definition LocalTime :: "zone \<Rightarrow> int \<Rightarrow> int" where
  "LocalTime zone t = t + zone t True"

definition UTC :: "zone \<Rightarrow> int \<Rightarrow> int" where
  "UTC zone t = t - zone t False"

text \<open>
  \<^verbatim>\<open>new Date(d.getFullYear(), d.getMonth(), d.getDate())\<close>: year, month and date of the local
  time of \<open>d\<close> name its day, \<^verbatim>\<open>Day(LocalTime(d))\<close>, and the new date is the instant at which
  that day begins in local time (for the years from 100 on; the constructor reads a year
  below 100 as a year of the twentieth century).
\<close>

definition localMidnight :: "zone \<Rightarrow> int \<Rightarrow> int" where
  "localMidnight zone t = UTC zone ((LocalTime zone t div msPerDay) * msPerDay)"

text \<open>
  \<^verbatim>\<open>
  const startDay = new Date(startDate.getFullYear(), startDate.getMonth(), startDate.getDate());
  const today = new Date(now.getFullYear(), now.getMonth(), now.getDate());
  const calendarDays = Math.floor((today.getTime() - startDay.getTime()) / (1000 * 60 * 60 * 24));
  \<close>
\<close>

definition calendarDays :: "zone \<Rightarrow> int \<Rightarrow> int \<Rightarrow> int" where
  "calendarDays zone startDate now =
     (localMidnight zone now - localMidnight zone startDate) div msPerDay"

text \<open>
  The body of the \<^verbatim>\<open>map\<close> callback of \<^verbatim>\<open>calculateDueDays\<close>, for the step at \<open>index\<close> of
  the sorted list:
  \<^verbatim>\<open>
  if (step.completed) return { ...step, dueDays: 0 };
  let startDate: Date | null = null;
  if (index === 0) {
    startDate = new Date(bookingCreatedAt);
  } else {
    const prevStep = sortedSteps[index - 1];
    if (prevStep && prevStep.completed && prevStep.completedAt) {
      startDate = new Date(prevStep.completedAt);
    } else {
      return { ...step, dueDays: 0 };
    }
  }
  ...
  const dueDays = Math.min(Math.max(calendarDays, 1), 5);
  return { ...step, dueDays };
  \<close>
\<close>

definition dueDays_step :: "zone \<Rightarrow> int \<Rightarrow> LeadStep list \<Rightarrow> int \<Rightarrow> nat \<Rightarrow> LeadStep \<Rightarrow> LeadStep" where
  "dueDays_step zone now sortedSteps bookingCreatedAt index step =
     (if s_completed step then step\<lparr>s_dueDays := 0\<rparr>
      else
        case (if index = 0 then Some bookingCreatedAt
              else let prevStep = sortedSteps ! (index - 1) in
                   if s_completed prevStep \<and> s_completedAt prevStep \<noteq> None
                   then s_completedAt prevStep else None) of
          None \<Rightarrow> step\<lparr>s_dueDays := 0\<rparr>
        | Some startDate \<Rightarrow>
            step\<lparr>s_dueDays := min (max (calendarDays zone startDate now) 1) 5\<rparr>)"

text \<open>
  \<^verbatim>\<open>
  function calculateDueDays(steps: any[], bookingCreatedAt: Date): any[] {
    const sortedSteps = [...steps].sort((a, b) => (a.order || 0) - (b.order || 0));
    return sortedSteps.map((step, index) => { ... });
  }
  \<close>
  The current time, read by \<^verbatim>\<open>new Date()\<close> in the callback, is the argument \<open>now\<close>.
\<close>

definition calculateDueDays :: "zone \<Rightarrow> int \<Rightarrow> LeadStep list \<Rightarrow> int \<Rightarrow> LeadStep list" where
  "calculateDueDays zone now steps bookingCreatedAt =
     (let sortedSteps = sort_key s_order steps
      in map (\<lambda>(index, step). dueDays_step zone now sortedSteps bookingCreatedAt index step)
           (enumerate 0 sortedSteps))"

text \<open>
  The calendar day of an instant, in the specification's words: the number of local
  midnights up to it, so that two instants are \<open>n\<close> calendar days apart when \<open>n\<close> midnights
  lie between them.
\<close>

definition day_number :: "zone \<Rightarrow> int \<Rightarrow> int" where
  "day_number zone t = (t + zone t True) div msPerDay"

definition clamp_1_5 :: "int \<Rightarrow> int" where
  "clamp_1_5 d = (if d < 1 then 1 else if 5 < d then 5 else d)"

subsection \<open>Step completion\<close>

text \<open>\<^verbatim>\<open>notes.trim()\<close>, on the ASCII white space characters.\<close>

definition is_space :: "char \<Rightarrow> bool" where
  "is_space ch = (ch \<in> set [CHR '' '', CHR 0x09, CHR 0x0A, CHR 0x0B, CHR 0x0C, CHR 0x0D])"

definition trim :: "string \<Rightarrow> string" where
  "trim s = rev (dropWhile is_space (rev (dropWhile is_space s)))"

text \<open>\<^verbatim>\<open>Math.round\<close>: the nearest integer, a half rounded up.\<close>

definition js_round :: "real \<Rightarrow> int" where
  "js_round x = \<lfloor>x + 1 / 2\<rfloor>"

text \<open>\<^verbatim>\<open>prisma.leadStep.update({ where: { id }, data })\<close>; \<open>id\<close> is the primary key.\<close>

definition leadStep_update :: "LeadStep list \<Rightarrow> string \<Rightarrow> (LeadStep \<Rightarrow> LeadStep) \<Rightarrow> LeadStep list" where
  "leadStep_update steps i f = map (\<lambda>s. if s_id s = i then f s else s) steps"

definition booking_update :: "Booking list \<Rightarrow> string \<Rightarrow> (Booking \<Rightarrow> Booking) \<Rightarrow> Booking list" where
  "booking_update bs i f = map (\<lambda>b. if b_id b = i then f b else b) bs"

record Progress =
  p_completed :: nat
  p_total :: nat
  p_percent :: int

text \<open>
  \<^verbatim>\<open>POST /api/staff/steps/:stepId/complete\<close>:
  \<^verbatim>\<open>
  if (req.user?.type !== 'staff') return res.status(403).json({ error: 'Forbidden: Staff access required' });
  const staffId = String(req.user.sub);
  if (!notes || !notes.trim()) return res.status(400).json({ error: 'Completion notes are required' });
  const step = await prisma.leadStep.findFirst({ where: { id: stepId },
      include: { lead: { select: { id: true, assignedStaffId: true } } } });
  if (!step) return res.status(404).json({ error: 'Step not found' });
  if (step.lead.assignedStaffId !== staffId)
    return res.status(403).json({ error: 'You are not assigned to this booking' });
  if (step.completed) return res.status(400).json({ error: 'Step is already completed' });
  const updatedStep = await prisma.leadStep.update({ where: { id: stepId },
      data: { completed: true, completedAt: new Date(), completionNotes: notes.trim() } });
  const allSteps = await prisma.leadStep.findMany({ where: { leadId: step.lead.id }, select: { completed: true } });
  const completedSteps = allSteps.filter((s: any) => s.completed).length;
  const totalSteps = allSteps.length;
  const newPercent = Math.round((completedSteps / totalSteps) * 100);
  await prisma.booking.update({ where: { id: step.lead.id }, data: { percent: newPercent } });
  res.json({ success: true, step: updatedStep, progress: { completed: completedSteps, total: totalSteps, percent: newPercent } });
  \<close>
  A step whose booking row is missing makes \<^verbatim>\<open>step.lead.assignedStaffId\<close> throw, which the
  handler's \<^verbatim>\<open>catch\<close> answers with status 500. \<open>totalSteps\<close> counts at least the step just
  completed, whenever that step is a row of the booking it names.
\<close>

definition staff_complete_step ::
  "int \<Rightarrow> Store \<Rightarrow> AuthUser \<Rightarrow> string \<Rightarrow> string option
     \<Rightarrow> (error + LeadStep \<times> Progress) \<times> Store" where
  "staff_complete_step now st user stepId notes =
     (if user_type user \<noteq> Staff then (Inl (403, ''Forbidden: Staff access required''), st)
      else
        let staffId = sub user in
        if \<not> truthy_str notes \<or> trim (the notes) = []
        then (Inl (400, ''Completion notes are required''), st)
        else case find (\<lambda>s. s_id s = stepId) (leadSteps st) of
          None \<Rightarrow> (Inl (404, ''Step not found''), st)
        | Some step \<Rightarrow>
            (case booking_findUnique (bookings st) (s_leadId step) of
               None \<Rightarrow> (Inl (500, ''An internal server error occurred''), st)
             | Some lead \<Rightarrow>
                 if b_assignedStaffId lead \<noteq> Some staffId
                 then (Inl (403, ''You are not assigned to this booking''), st)
                 else if s_completed step then (Inl (400, ''Step is already completed''), st)
                 else
                   let upd = (\<lambda>s. s\<lparr>s_completed := True, s_completedAt := Some now,
                                       s_completionNotes := Some (trim (the notes))\<rparr>);
                       st1 = st\<lparr>leadSteps := leadStep_update (leadSteps st) stepId upd\<rparr>;
                       updatedStep = upd step;
                       allSteps = filter (\<lambda>s. s_leadId s = b_id lead) (leadSteps st1);
                       completedSteps = length (filter s_completed allSteps);
                       totalSteps = length allSteps;
                       newPercent = js_round (real completedSteps / real totalSteps * 100);
                       st2 = st1\<lparr>bookings := booking_update (bookings st1) (b_id lead)
                                                (\<lambda>b. b\<lparr>b_percent := newPercent\<rparr>)\<rparr>
                   in (Inr (updatedStep, \<lparr>p_completed = completedSteps, p_total = totalSteps,
                                          p_percent = newPercent\<rparr>), st2)))"

text \<open>
  \<^verbatim>\<open>PATCH /api/admin/leads/:id/steps/:stepId\<close>, first part: the update of the step. \<open>completed\<close>
  is \<^verbatim>\<open>Boolean(completed)\<close> of the request body.
  \<^verbatim>\<open>
  const updated = await prisma.leadStep.update({ where: { id: stepId },
      data: { completed: Boolean(completed), completedAt: completed ? new Date() : null,
              dueDays: completed ? 0 : step.dueDays } });
  \<close>
\<close>

definition patch_update :: "int \<Rightarrow> LeadStep \<Rightarrow> bool \<Rightarrow> LeadStep \<Rightarrow> LeadStep" where
  "patch_update now step completed s =
     s\<lparr>s_completed := completed, s_completedAt := (if completed then Some now else None),
       s_dueDays := (if completed then 0 else s_dueDays step)\<rparr>"

text \<open>\<^verbatim>\<open>prisma.leadStep.findMany({ where: { leadId: id }, orderBy: { order: 'asc' } })\<close>\<close>

definition steps_of_lead :: "Store \<Rightarrow> string \<Rightarrow> LeadStep list" where
  "steps_of_lead st i = sort_key s_order (filter (\<lambda>s. s_leadId s = i) (leadSteps st))"

text \<open>
  Second part: activation of the next step.
  \<^verbatim>\<open>
  const nextStep = allSteps.find((s: any) => !s.completed && s.id !== stepId);
  if (nextStep) await prisma.leadStep.update({ where: { id: nextStep.id }, data: { dueDays: 1 } });
  \<close>
\<close>

definition activate_next :: "Store \<Rightarrow> string \<Rightarrow> string \<Rightarrow> Store" where
  "activate_next st i stepId =
     (case find (\<lambda>s. \<not> s_completed s \<and> s_id s \<noteq> stepId) (steps_of_lead st i) of
        None \<Rightarrow> st
      | Some nextStep \<Rightarrow>
          st\<lparr>leadSteps := leadStep_update (leadSteps st) (s_id nextStep) (\<lambda>s. s\<lparr>s_dueDays := 1\<rparr>)\<rparr>)"

text \<open>
  \<^verbatim>\<open>
  const latestCompletedAt = nonCertSteps
    .map((s: any) => (s.completedAt ? new Date(s.completedAt) : null))
    .filter((d: Date | null) => !!d)
    .sort((a, b) => (a!.getTime() - b!.getTime()))
    .pop() as Date | undefined;
  \<close>
\<close>

definition latestCompletedAt :: "LeadStep list \<Rightarrow> int option" where
  "latestCompletedAt nonCertSteps =
     (case sort (List.map_filter s_completedAt nonCertSteps) of
        [] \<Rightarrow> None
      | d # ds \<Rightarrow> Some (last (d # ds)))"

text \<open>
  Third part: the certificate. The generator \<^verbatim>\<open>generateCertificatePDF\<close> is outside the
  repository's core; it is a parameter here, given the booking and the install date (the
  instant whose \<^verbatim>\<open>en-IN\<close> long date string the code passes on), and returns the
  \<^verbatim>\<open>publicUrl\<close>, or \<open>None\<close> when it throws. Each call is recorded with the booking id and the
  install date.
  \<^verbatim>\<open>
  const lead = await prisma.lead.findUnique({ where: { id }, include: { steps: true } });
  if (lead) {
    const steps = await prisma.leadStep.findMany({ where: { leadId: id }, orderBy: { order: 'asc' } });
    const nonCertSteps = steps.filter((s: any) => s.name !== 'certificate');
    const allNonCertComplete = nonCertSteps.length > 0 && nonCertSteps.every((s: any) => s.completed);
    if (allNonCertComplete && !lead.certificateUrl) {
      const latestCompletedAt = ...;
      const installDate = (latestCompletedAt || new Date()).toLocaleDateString(...);
      try {
        const { publicUrl } = await generateCertificatePDF({ leadId: id, ..., installDate, ... });
        await prisma.booking.update({ where: { id },
            data: { certificateUrl: publicUrl, certificateGeneratedAt: new Date() } });
        const certStep = steps.find((s: any) => s.name === 'certificate');
        if (certStep && !certStep.completed) {
          await prisma.leadStep.update({ where: { id: certStep.id },
              data: { completed: true, completedAt: new Date() } });
        }
      } catch (err) {
        console.error('[certificate] generation failed', err);
      }
    }
  }
  \<close>
\<close>

type_synonym cert_call = "string \<times> int"

definition certificate_cascade ::
  "(Booking \<Rightarrow> int \<Rightarrow> string option) \<Rightarrow> int \<Rightarrow> Store \<Rightarrow> string \<Rightarrow> Store \<times> cert_call list" where
  "certificate_cascade generateCertificatePDF now st i =
     (case booking_findUnique (bookings st) i of
        None \<Rightarrow> (st, [])
      | Some lead \<Rightarrow>
          let steps = steps_of_lead st i;
              nonCertSteps = filter (\<lambda>s. s_name s \<noteq> ''certificate'') steps;
              allNonCertComplete = (nonCertSteps \<noteq> [] \<and> list_all s_completed nonCertSteps)
          in if allNonCertComplete \<and> \<not> truthy_str (b_certificateUrl lead) then
               let installDate = (case latestCompletedAt nonCertSteps of Some d \<Rightarrow> d | None \<Rightarrow> now)
               in case generateCertificatePDF lead installDate of
                    None \<Rightarrow> (st, [(i, installDate)])
                  | Some publicUrl \<Rightarrow>
                      let st1 = st\<lparr>bookings := booking_update (bookings st) i
                                   (\<lambda>b. b\<lparr>b_certificateUrl := Some publicUrl,
                                           b_certificateGeneratedAt := Some now\<rparr>)\<rparr>;
                          st2 = (case find (\<lambda>s. s_name s = ''certificate'') steps of
                                   None \<Rightarrow> st1
                                 | Some certStep \<Rightarrow>
                                     if \<not> s_completed certStep
                                     then st1\<lparr>leadSteps := leadStep_update (leadSteps st1) (s_id certStep)
                                            (\<lambda>s. s\<lparr>s_completed := True, s_completedAt := Some now\<rparr>)\<rparr>
                                     else st1)
                      in (st2, [(i, installDate)])
             else (st, []))"

text \<open>
  The handler:
  \<^verbatim>\<open>
  if (req.user?.type !== 'admin') return res.status(403).json({ error: 'Forbidden' });
  const step = await prisma.leadStep.findFirst({ where: { id: stepId, leadId: id } });
  if (!step) return res.status(404).json({ error: 'Step not found' });
  const updated = await prisma.leadStep.update(...);
  if (Boolean(completed)) { ... activate the next step ... }
  if (Boolean(completed)) { ... certificate ... }
  res.json(updated);
  \<close>
\<close>

definition after_completion :: "int \<Rightarrow> Store \<Rightarrow> string \<Rightarrow> string \<Rightarrow> LeadStep \<Rightarrow> Store" where
  "after_completion now st i stepId step =
     activate_next
       (st\<lparr>leadSteps := leadStep_update (leadSteps st) stepId (patch_update now step True)\<rparr>)
       i stepId"

definition admin_patch_step ::
  "(Booking \<Rightarrow> int \<Rightarrow> string option) \<Rightarrow> int \<Rightarrow> Store \<Rightarrow> AuthUser \<Rightarrow> string \<Rightarrow> string \<Rightarrow> bool
     \<Rightarrow> (error + LeadStep) \<times> Store \<times> cert_call list" where
  "admin_patch_step generateCertificatePDF now st user i stepId completed =
     (if user_type user \<noteq> Admin then (Inl (403, ''Forbidden''), st, [])
      else case find (\<lambda>s. s_id s = stepId \<and> s_leadId s = i) (leadSteps st) of
        None \<Rightarrow> (Inl (404, ''Step not found''), st, [])
      | Some step \<Rightarrow>
          let updated = patch_update now step completed step in
          if completed then
            let (st', issued) =
                  certificate_cascade generateCertificatePDF now (after_completion now st i stepId step) i
            in (Inr updated, st', issued)
          else
            (Inr updated,
             st\<lparr>leadSteps := leadStep_update (leadSteps st) stepId (patch_update now step False)\<rparr>,
             []))"

text \<open>
  The percentage in the specification's words: the completed steps over the fixed template
  size of 12, times 100, rounded, and at most 100.
\<close>

definition spec_percent :: "nat \<Rightarrow> int" where
  "spec_percent completedCount = min (js_round (real completedCount / 12 * 100)) 100"

text \<open>The chain the resolver returns for customer D of \<open>line_customers\<close>.\<close>

definition chain_of_D :: "ChainEntry list" where
  "chain_of_D = [\<lparr>u_id = ''C'', u_level = 1\<rparr>, \<lparr>u_id = ''B'', u_level = 2\<rparr>,
                 \<lparr>u_id = ''A'', u_level = 3\<rparr>]"

text \<open>
  The ledger rows the distributor is to write, in the specification's words: one row for each
  resolved ancestor whose amount after scaling is not \<open>\<le> 0\<close>, from the source customer, at
  the ancestor's depth, for that amount.
\<close>

definition expected_rows :: "string \<Rightarrow> ChainEntry list \<Rightarrow> jsnum list \<Rightarrow> Commission list" where
  "expected_rows sourceId chain amounts =
     map (\<lambda>(e, a). \<lparr>m_customerId = u_id e, m_fromCustomerId = sourceId,
                      m_levelFromDownline = u_level e, m_amount = a\<rparr>)
       (filter (\<lambda>(e, a). \<not> js_le a (Fin 0)) (zip chain amounts))"




text \<open>The wallet credit that belongs to a ledger row, and the row's entry in the details.\<close>

definition credit_row :: "rounding \<Rightarrow> Wallet list \<Rightarrow> Commission \<Rightarrow> Wallet list" where
  "credit_row rnd ws r = upsertWalletAdd rnd ws (m_customerId r) (m_amount r)"

definition detail_of_row :: "Commission \<Rightarrow> Detail" where
  "detail_of_row r = \<lparr>d_uplineId = m_customerId r, d_levelFromDownline = m_levelFromDownline r,
                       d_amount = m_amount r\<rparr>"

text \<open>
  Example stores over \<open>line_customers\<close>: one with no settings row yet (the defaults apply);
  one where C and A already hold a balance; and one whose settings give level 2 a negative
  percentage. The percentages and amounts of the last two are chosen so that every
  intermediate result is a double, and exact arithmetic is the arithmetic of the program.
\<close>

definition line_store :: Store where
  "line_store = \<lparr>customers = line_customers, wallets = [], commissions = [], mlSettings = [],
                  bookings = [], leadSteps = []\<rparr>"



definition customer_D :: AuthUser where
  "customer_D = \<lparr>user_type = CustomerUser, sub = ''D''\<rparr>"

text \<open>
  An invalid gross amount in the specification's words: non-positive or non-finite
  (zero, negative, NaN or infinite).
\<close>

definition invalid_amount :: "jsnum \<Rightarrow> bool" where
  "invalid_amount gross = (\<not> isFinite gross \<or> js_le gross (Fin 0))"

text \<open>
  Two zones. One keeps a fixed offset from UTC all year. The other is that of New York in
  2025: five hours behind UTC until the clocks go forward on 9 March at 02:00 local time
  (07:00 UTC), four hours behind from then on. The example times are noon of 8 March and noon
  of 10 March there; 8 March 2025 is day 20155 of the epoch.
\<close>

definition fixed_zone :: "int \<Rightarrow> zone" where
  "fixed_zone tz t isUTC = tz"

definition new_york_2025 :: zone where
  "new_york_2025 t isUTC =
     (if isUTC then (if t < 20156 * msPerDay + 7 * 3600000 then - 5 * 3600000 else - 4 * 3600000)
      else (if t < 20156 * msPerDay + 2 * 3600000 then - 5 * 3600000 else - 4 * 3600000))"

definition noon_march_8 :: int where
  "noon_march_8 = 20155 * msPerDay + 17 * 3600000"

definition noon_march_10 :: int where
  "noon_march_10 = 20157 * msPerDay + 16 * 3600000"

definition step_visit :: LeadStep where
  "step_visit = \<lparr>s_id = ''v1'', s_leadId = ''L2'', s_name = ''visit'', s_order = 1,
     s_completed = False, s_completedAt = None, s_completionNotes = None, s_dueDays = 0\<rparr>"

text \<open>
  Example steps of one booking, in a zone five and a half hours ahead of UTC. The booking
  was created at local midnight of day 0. The first step was completed at 23:00 local time
  on day 3; the second and third are open. \<open>one_am_day_4\<close> is 01:00 local time on day 4,
  two hours after that completion.
\<close>

definition ist :: int where
  "ist = 19800000"

definition eleven_pm_day_3 :: int where
  "eleven_pm_day_3 = 3 * msPerDay + 23 * 3600000 - ist"

definition one_am_day_4 :: int where
  "one_am_day_4 = 4 * msPerDay + 3600000 - ist"

definition noon_day_10 :: int where
  "noon_day_10 = 10 * msPerDay + 12 * 3600000 - ist"

definition step_meeting :: LeadStep where
  "step_meeting = \<lparr>s_id = ''s1'', s_leadId = ''L1'', s_name = ''meeting'', s_order = 1,
     s_completed = True, s_completedAt = Some eleven_pm_day_3, s_completionNotes = Some ''met'',
     s_dueDays = 0\<rparr>"

definition step_survey :: LeadStep where
  "step_survey = \<lparr>s_id = ''s2'', s_leadId = ''L1'', s_name = ''survey'', s_order = 2,
     s_completed = False, s_completedAt = None, s_completionNotes = None, s_dueDays = 0\<rparr>"

definition step_wiring :: LeadStep where
  "step_wiring = \<lparr>s_id = ''s3'', s_leadId = ''L1'', s_name = ''wiring'', s_order = 3,
     s_completed = False, s_completedAt = None, s_completionNotes = None, s_dueDays = 0\<rparr>"

text \<open>
  Example stores for the workflow: booking L1, assigned to staff member S1, with no
  certificate yet, and a few of its steps materialized.
\<close>

definition staff_S1 :: AuthUser where
  "staff_S1 = \<lparr>user_type = Staff, sub = ''S1''\<rparr>"

definition admin_user :: AuthUser where
  "admin_user = \<lparr>user_type = Admin, sub = ''adm''\<rparr>"

definition booking_L1 :: Booking where
  "booking_L1 = \<lparr>b_id = ''L1'', b_customerId = Some ''D'', b_totalPayable = Some (Fin 100000),
     b_createdAt = - ist, b_percent = 0, b_certificateUrl = None,
     b_certificateGeneratedAt = None, b_assignedStaffId = Some ''S1''\<rparr>"

definition store_with_steps :: "LeadStep list \<Rightarrow> Store" where
  "store_with_steps steps = \<lparr>customers = line_customers, wallets = [], commissions = [],
     mlSettings = [], bookings = [booking_L1], leadSteps = steps\<rparr>"

definition step_certificate :: LeadStep where
  "step_certificate = \<lparr>s_id = ''s12'', s_leadId = ''L1'', s_name = ''certificate'', s_order = 12,
     s_completed = False, s_completedAt = None, s_completionNotes = None, s_dueDays = 0\<rparr>"

text \<open>A certificate generator that fails, and one that returns a fixed handle.\<close>

definition failing_generator :: "Booking \<Rightarrow> int \<Rightarrow> string option" where
  "failing_generator lead installDate = None"




section \<open>Properties\<close>

subsection \<open>Upline resolver\<close>

lemma referrer_truthy: "referrer cs c = Some a \<Longrightarrow> a \<noteq> []"
  by (auto simp: referrer_def split: option.splits if_splits)

lemma loop_step:
  assumes "c \<noteq> []" "steps < maxLevels" "referrer cs c = Some a"
  shows "getUplineChain_loop cs maxLevels chain (Some c) steps =
         getUplineChain_loop cs maxLevels (chain @ [\<lparr>u_id = a, u_level = steps + 1\<rparr>]) (Some a) (steps + 1)"
  using assms
  by (subst getUplineChain_loop.simps)
     (auto simp: referrer_def Let_def split: option.splits if_splits)

lemma loop_stop_no_referrer:
  assumes "referrer cs c = None"
  shows "getUplineChain_loop cs maxLevels chain (Some c) steps = chain"
  using assms
  by (subst getUplineChain_loop.simps)
     (auto simp: referrer_def Let_def split: option.splits if_splits)

lemma loop_stop_depth:
  assumes "\<not> steps < maxLevels"
  shows "getUplineChain_loop cs maxLevels chain currentId steps = chain"
  using assms by (subst getUplineChain_loop.simps) simp

lemma loop_on_chain:
  assumes "referrer_chain cs c anc" "c \<noteq> []"
  shows "getUplineChain_loop cs maxLevels chain (Some c) steps =
         chain @ entries_from steps (take (maxLevels - steps) anc)"
  using assms
proof (induction anc arbitrary: c chain steps)
  case Nil
  then show ?case by (simp add: loop_stop_no_referrer)
next
  case (Cons a anc)
  from Cons.prems have r: "referrer cs c = Some a" and ch: "referrer_chain cs a anc" by simp_all
  have a: "a \<noteq> []" using r by (rule referrer_truthy)
  show ?case
  proof (cases "steps < maxLevels")
    case True
    then obtain k where k: "maxLevels - steps = Suc k" by (cases "maxLevels - steps") auto
    then have k': "maxLevels - Suc steps = k" by simp
    show ?thesis
      using Cons.IH [OF ch a, of "chain @ [\<lparr>u_id = a, u_level = steps + 1\<rparr>]" "steps + 1"]
      by (simp add: loop_step [OF Cons.prems(2) True r] k k')
  next
    case False
    then show ?thesis by (simp add: loop_stop_depth)
  qed
qed

lemma length_entries_from: "length (entries_from steps anc) = length anc"
  by (induction anc arbitrary: steps) simp_all

lemma ids_entries_from: "map u_id (entries_from steps anc) = anc"
  by (induction anc arbitrary: steps) simp_all

lemma levels_entries_from:
  "map u_level (entries_from steps anc) = [Suc steps ..< Suc steps + length anc]"
proof (induction anc arbitrary: steps)
  case Nil
  show ?case by simp
next
  case (Cons a anc)
  have "[Suc steps ..< Suc steps + length (a # anc)] =
        Suc steps # [Suc (Suc steps) ..< Suc (Suc steps) + length anc]"
    by (subst upt_rec) simp
  with Cons.IH [of "Suc steps"] show ?case by simp
qed

lemma length_loop:
  "length (getUplineChain_loop cs maxLevels chain currentId steps)
     \<le> length chain + (maxLevels - steps)"
proof (induction cs maxLevels chain currentId steps rule: getUplineChain_loop.induct)
  case (1 cs maxLevels chain currentId steps)
  show ?case
  proof (cases "truthy_str currentId \<and> steps < maxLevels")
    case False
    then show ?thesis by (subst getUplineChain_loop.simps) auto
  next
    case True
    show ?thesis
    proof (cases "customer_findUnique cs (the currentId)")
      case None
      with True show ?thesis by (subst getUplineChain_loop.simps) auto
    next
      case (Some me)
      show ?thesis
      proof (cases "truthy_str (c_referredBy me)")
        case False
        with True Some show ?thesis by (subst getUplineChain_loop.simps) auto
      next
        case t: True
        have "length (getUplineChain_loop cs maxLevels
                 (chain @ [\<lparr>u_id = the (c_referredBy me), u_level = steps + 1\<rparr>])
                 (Some (the (c_referredBy me))) (steps + 1))
              \<le> length (chain @ [\<lparr>u_id = the (c_referredBy me), u_level = steps + 1\<rparr>])
                  + (maxLevels - (steps + 1))"
          using "1.IH" [OF True Some _ refl] t by simp
        with True Some t show ?thesis
          by (subst getUplineChain_loop.simps) (auto simp: Let_def)
      qed
    qed
  qed
qed

lemma referrer_chain_unique:
  "referrer_chain cs c xs \<Longrightarrow> referrer_chain cs c ys \<Longrightarrow> xs = ys"
proof (induction xs arbitrary: c ys)
  case Nil
  then show ?case by (cases ys) simp_all
next
  case (Cons x xs)
  then show ?case by (cases ys) auto
qed

lemma referrer_chain_suffix:
  "referrer_chain cs c (xs @ a # ys) \<Longrightarrow> referrer_chain cs a ys"
  by (induction xs arbitrary: c) auto

lemma referrer_chain_not_self:
  assumes "referrer_chain cs c anc"
  shows "c \<notin> set anc"
proof
  assume "c \<in> set anc"
  then obtain xs ys where split: "anc = xs @ c # ys" by (auto simp: in_set_conv_decomp)
  with assms have "referrer_chain cs c ys" by (auto dest: referrer_chain_suffix)
  with assms have "anc = ys" by (rule referrer_chain_unique)
  with split show False by simp
qed

lemma referrer_chain_distinct: "referrer_chain cs c anc \<Longrightarrow> distinct anc"
proof (induction anc arbitrary: c)
  case Nil
  show ?case by simp
next
  case (Cons a anc)
  then have "referrer_chain cs a anc" by simp
  then show ?case using Cons.IH referrer_chain_not_self by auto
qed

lemma getUplineChain_on_chain:
  assumes "referrer_chain cs c anc" "c \<noteq> []"
  shows "getUplineChain cs c maxLevels = entries_from 0 (take maxLevels anc)"
  using loop_on_chain [OF assms, of maxLevels "[]" 0] by (simp add: getUplineChain_def)

lemma getUplineChain_empty_id: "getUplineChain cs [] maxLevels = []"
  unfolding getUplineChain_def by (subst getUplineChain_loop.simps) simp

text \<open>
  Claim C9. For a customer whose referrer chain ends after \<open>L\<close> ancestors, the resolver
  called with depth 3 returns the first \<open>min L 3\<close> ancestors, nearest first, the i-th paired
  with depth i: three entries at depths 1, 2, 3 for a chain of three or more, one entry for a
  chain of one, and the empty list for a customer with no referrer.
\<close>

theorem getUplineChain_depths:
  assumes "referrer_chain cs c anc" and "c \<noteq> []"
  shows "map u_id (getUplineChain cs c 3) = take 3 anc
       \<and> map u_level (getUplineChain cs c 3) = [1 ..< 1 + min (length anc) 3]
       \<and> length (getUplineChain cs c 3) = min (length anc) 3
       \<and> (3 \<le> length anc \<longrightarrow> map u_level (getUplineChain cs c 3) = [1, 2, 3])
       \<and> (length anc = 1 \<longrightarrow> getUplineChain cs c 3 = [\<lparr>u_id = hd anc, u_level = 1\<rparr>])
       \<and> (anc = [] \<longrightarrow> getUplineChain cs c 3 = [])"
proof -
  have eq: "getUplineChain cs c 3 = entries_from 0 (take 3 anc)"
    using assms by (rule getUplineChain_on_chain)
  have ids: "map u_id (getUplineChain cs c 3) = take 3 anc"
    by (simp add: eq ids_entries_from)
  have lv: "map u_level (getUplineChain cs c 3) = [1 ..< 1 + min (length anc) 3]"
    by (simp add: eq levels_entries_from)
  have len: "length (getUplineChain cs c 3) = min (length anc) 3"
    by (simp add: eq length_entries_from)
  have three: "3 \<le> length anc \<longrightarrow> map u_level (getUplineChain cs c 3) = [1, 2, 3]"
  proof
    assume "3 \<le> length anc"
    then have "min (length anc) 3 = 3" by simp
    then have "map u_level (getUplineChain cs c 3) = [1 ..< 4]" using lv by simp
    also have "[1 ..< 4] = [1, 2, 3::nat]" by (simp add: upt_conv_Cons)
    finally show "map u_level (getUplineChain cs c 3) = [1, 2, 3]" .
  qed
  have one: "length anc = 1 \<longrightarrow> getUplineChain cs c 3 = [\<lparr>u_id = hd anc, u_level = 1\<rparr>]"
  proof
    assume "length anc = 1"
    then obtain a where "anc = [a]" by (cases anc) auto
    then show "getUplineChain cs c 3 = [\<lparr>u_id = hd anc, u_level = 1\<rparr>]" by (simp add: eq)
  qed
  have none: "anc = [] \<longrightarrow> getUplineChain cs c 3 = []" by (simp add: eq)
  from ids lv len three one none show ?thesis by blast
qed

theorem getUplineChain_depths_witness:
  "referrer_chain line_customers ''D'' [''C'', ''B'', ''A''] \<and> ''D'' \<noteq> []
   \<and> map u_id (getUplineChain line_customers ''D'' 3) = [''C'', ''B'', ''A'']
   \<and> map u_level (getUplineChain line_customers ''D'' 3) = [1, 2, 3]
   \<and> length (getUplineChain line_customers ''D'' 3) = 3"
proof -
  have ch: "referrer_chain line_customers ''D'' [''C'', ''B'', ''A'']"
    by (simp add: referrer_def customer_findUnique_def line_customers_def)
  have ne: "''D'' \<noteq> []" by simp
  show ?thesis
    using ch ne getUplineChain_depths [OF ch ne] by simp
qed

text \<open>
  Claim C4, as stated, fails: the loop has no guard against a revisited node. On the graph
  where A and B refer each other the walk from A runs all three hops and returns B, A, B:
  B twice, and A itself.
\<close>

theorem getUplineChain_cycle_counterexample:
  "\<not> (distinct (map u_id (getUplineChain cyclic_customers ''A'' 3))
      \<and> ''A'' \<notin> set (map u_id (getUplineChain cyclic_customers ''A'' 3)))"
proof -
  have "map u_id (getUplineChain cyclic_customers ''A'' 3) = [''B'', ''A'', ''B'']"
    by (simp add: getUplineChain_def getUplineChain_loop.simps customer_findUnique_def
        cyclic_customers_def Let_def)
  then show ?thesis by simp
qed

lemma loop_on_walk:
  assumes "c \<noteq> []"
  shows "getUplineChain_loop cs maxLevels chain (Some c) steps =
         chain @ entries_from steps (upline_walk cs c (maxLevels - steps))"
  using assms
proof (induction "maxLevels - steps" arbitrary: c chain steps)
  case 0
  then have "\<not> steps < maxLevels" by simp
  then show ?case using 0 by (simp add: loop_stop_depth)
next
  case (Suc hops)
  then have lt: "steps < maxLevels" and rest: "hops = maxLevels - (steps + 1)" by simp_all
  have hops: "maxLevels - steps = Suc hops" using Suc.hyps(2) by simp
  show ?case
  proof (cases "referrer cs c")
    case None
    then show ?thesis by (simp add: hops loop_stop_no_referrer)
  next
    case (Some a)
    then have a: "a \<noteq> []" by (rule referrer_truthy)
    have "getUplineChain_loop cs maxLevels chain (Some c) steps =
          getUplineChain_loop cs maxLevels (chain @ [\<lparr>u_id = a, u_level = steps + 1\<rparr>])
            (Some a) (steps + 1)"
      using Suc.prems lt Some by (rule loop_step)
    also have "\<dots> = (chain @ [\<lparr>u_id = a, u_level = steps + 1\<rparr>])
          @ entries_from (steps + 1) (upline_walk cs a (maxLevels - (steps + 1)))"
      using rest a by (rule Suc.hyps(1))
    finally show ?thesis using Some rest by (simp add: hops)
  qed
qed

lemma length_upline_walk: "length (upline_walk cs c hops) \<le> hops"
  by (induction hops arbitrary: c) (simp_all split: option.split)

lemma upline_walk_stops:
  "length (upline_walk cs c hops) < hops \<Longrightarrow>
     referrer cs (last (c # upline_walk cs c hops)) = None"
proof (induction hops arbitrary: c)
  case 0
  then show ?case by simp
next
  case (Suc hops)
  show ?case
  proof (cases "referrer cs c")
    case None
    then show ?thesis by simp
  next
    case (Some a)
    with Suc.prems have "length (upline_walk cs a hops) < hops" by simp
    then have "referrer cs (last (a # upline_walk cs a hops)) = None" by (rule Suc.IH)
    with Some show ?thesis by simp
  qed
qed

lemma upline_walk_on_chain:
  "referrer_chain cs c anc \<Longrightarrow> upline_walk cs c hops = take hops anc"
proof (induction hops arbitrary: c anc)
  case 0
  show ?case by simp
next
  case (Suc hops)
  show ?case
  proof (cases anc)
    case Nil
    with Suc.prems show ?thesis by simp
  next
    case (Cons a rest)
    with Suc.prems have "referrer cs c = Some a" "referrer_chain cs a rest" by simp_all
    with Suc.IH [of a rest] Cons show ?thesis by simp
  qed
qed

text \<open>
  Claim C4, amended. For every referral graph, cycles included, and every customer, the
  resolver stops at the earlier of a customer with no referrer and \<open>maxLevels\<close> hops; there
  is no guard against a revisited node. The list is exactly the walk of at most \<open>maxLevels\<close>
  hops along \<^verbatim>\<open>referredBy\<close>, each ancestor with its hop count as depth, and the walk is
  shorter than \<open>maxLevels\<close> only where its last customer has no referrer. So the list has no
  ancestor twice and lacks the customer itself exactly when that walk visits no customer
  twice, the start included: on every chain that ends, and also when a cycle lies beyond
  the hops walked.
\<close>

theorem getUplineChain_walk:
  "(c \<noteq> [] \<longrightarrow> getUplineChain cs c maxLevels = entries_from 0 (upline_walk cs c maxLevels))
   \<and> (c = [] \<longrightarrow> getUplineChain cs c maxLevels = [])
   \<and> length (getUplineChain cs c maxLevels) \<le> maxLevels
   \<and> (length (upline_walk cs c maxLevels) < maxLevels \<longrightarrow>
         referrer cs (last (c # upline_walk cs c maxLevels)) = None)
   \<and> (c \<noteq> [] \<longrightarrow>
         (distinct (map u_id (getUplineChain cs c maxLevels))
            \<and> c \<notin> set (map u_id (getUplineChain cs c maxLevels)))
         = distinct (c # upline_walk cs c maxLevels))
   \<and> (referrer_chain cs c anc \<longrightarrow>
         upline_walk cs c maxLevels = take maxLevels anc
         \<and> distinct (map u_id (getUplineChain cs c maxLevels))
         \<and> c \<notin> set (map u_id (getUplineChain cs c maxLevels)))"
proof -
  have walk: "getUplineChain cs c maxLevels = entries_from 0 (upline_walk cs c maxLevels)"
    if "c \<noteq> []"
    using loop_on_walk [OF that, of cs maxLevels "[]" 0] by (simp add: getUplineChain_def)
  have empty: "getUplineChain cs c maxLevels = []" if "c = []"
    using that by (simp add: getUplineChain_empty_id)
  have bound: "length (getUplineChain cs c maxLevels) \<le> maxLevels"
    using length_loop [of cs maxLevels "[]" "Some c" 0] by (simp add: getUplineChain_def)
  have stops: "referrer cs (last (c # upline_walk cs c maxLevels)) = None"
    if "length (upline_walk cs c maxLevels) < maxLevels"
    using that by (rule upline_walk_stops)
  have ids: "map u_id (getUplineChain cs c maxLevels) = upline_walk cs c maxLevels" if "c \<noteq> []"
    by (simp add: walk [OF that] ids_entries_from)
  have revisit: "(distinct (map u_id (getUplineChain cs c maxLevels))
            \<and> c \<notin> set (map u_id (getUplineChain cs c maxLevels)))
         = distinct (c # upline_walk cs c maxLevels)" if "c \<noteq> []"
    by (auto simp: ids [OF that])
  have chain: "upline_walk cs c maxLevels = take maxLevels anc
         \<and> distinct (map u_id (getUplineChain cs c maxLevels))
         \<and> c \<notin> set (map u_id (getUplineChain cs c maxLevels))"
    if ch: "referrer_chain cs c anc"
  proof -
    have w: "upline_walk cs c maxLevels = take maxLevels anc"
      using ch by (rule upline_walk_on_chain)
    show ?thesis
    proof (cases "c = []")
      case True
      with w show ?thesis by (simp add: getUplineChain_empty_id)
    next
      case False
      have "distinct (take maxLevels anc)"
        using referrer_chain_distinct [OF ch] by (rule distinct_take)
      moreover have "c \<notin> set (take maxLevels anc)"
        using referrer_chain_not_self [OF ch] by (auto dest: in_set_takeD)
      ultimately show ?thesis using w ids [OF False] by simp
    qed
  qed
  from walk empty bound stops revisit chain show ?thesis by blast
qed

theorem getUplineChain_walk_witness:
  "''D'' \<noteq> [] \<and> referrer_chain line_customers ''D'' [''C'', ''B'', ''A'']
   \<and> map u_id (getUplineChain line_customers ''D'' 2) = [''C'', ''B'']
   \<and> length (upline_walk line_customers ''A'' 3) < 3
   \<and> referrer line_customers ''A'' = None
   \<and> getUplineChain line_customers [] 3 = []
   \<and> upline_walk far_cycle_customers ''P'' 3 = [''Q'', ''R'', ''S'']
   \<and> distinct (''P'' # upline_walk far_cycle_customers ''P'' 3)
   \<and> distinct (map u_id (getUplineChain far_cycle_customers ''P'' 3))
   \<and> ''P'' \<notin> set (map u_id (getUplineChain far_cycle_customers ''P'' 3))
   \<and> upline_walk cyclic_customers ''A'' 3 = [''B'', ''A'', ''B'']
   \<and> getUplineChain cyclic_customers ''A'' 3
       = [\<lparr>u_id = ''B'', u_level = 1\<rparr>, \<lparr>u_id = ''A'', u_level = 2\<rparr>, \<lparr>u_id = ''B'', u_level = 3\<rparr>]"
proof -
  have d: "''D'' \<noteq> []" and p: "''P'' \<noteq> []" and a: "''A'' \<noteq> []" by simp_all
  have ch: "referrer_chain line_customers ''D'' [''C'', ''B'', ''A'']"
    by (simp add: referrer_def customer_findUnique_def line_customers_def)
  have wa: "upline_walk line_customers ''A'' 3 = []"
    by (simp add: numeral_3_eq_3 referrer_def customer_findUnique_def line_customers_def)
  have wp: "upline_walk far_cycle_customers ''P'' 3 = [''Q'', ''R'', ''S'']"
    by (simp add: numeral_3_eq_3 referrer_def customer_findUnique_def far_cycle_customers_def)
  have wc: "upline_walk cyclic_customers ''A'' 3 = [''B'', ''A'', ''B'']"
    by (simp add: numeral_3_eq_3 referrer_def customer_findUnique_def cyclic_customers_def)
  note D = getUplineChain_walk [of "''D''" line_customers 2 "[''C'', ''B'', ''A'']"]
  note A = getUplineChain_walk [of "''A''" line_customers 3 "[]"]
  note E = getUplineChain_walk [of "[]" line_customers 3 "[]"]
  note P = getUplineChain_walk [of "''P''" far_cycle_customers 3 "[]"]
  note C = getUplineChain_walk [of "''A''" cyclic_customers 3 "[]"]
  have r1: "map u_id (getUplineChain line_customers ''D'' 2) = [''C'', ''B'']"
  proof -
    from D ch have "upline_walk line_customers ''D'' 2 = take 2 [''C'', ''B'', ''A'']" by blast
    moreover from D d have "getUplineChain line_customers ''D'' 2
        = entries_from 0 (upline_walk line_customers ''D'' 2)" by blast
    ultimately show ?thesis by (simp add: ids_entries_from)
  qed
  have r2: "length (upline_walk line_customers ''A'' 3) < 3" by (simp add: wa)
  have r3: "referrer line_customers ''A'' = None"
    using A r2 by (simp add: wa)
  have r4: "getUplineChain line_customers [] 3 = []" using E by blast
  have r5: "distinct (''P'' # upline_walk far_cycle_customers ''P'' 3)" by (simp add: wp)
  have r6: "distinct (map u_id (getUplineChain far_cycle_customers ''P'' 3))
      \<and> ''P'' \<notin> set (map u_id (getUplineChain far_cycle_customers ''P'' 3))"
    using P p r5 by blast
  have r7: "getUplineChain cyclic_customers ''A'' 3
       = [\<lparr>u_id = ''B'', u_level = 1\<rparr>, \<lparr>u_id = ''A'', u_level = 2\<rparr>, \<lparr>u_id = ''B'', u_level = 3\<rparr>]"
  proof -
    from C a have "getUplineChain cyclic_customers ''A'' 3
        = entries_from 0 (upline_walk cyclic_customers ''A'' 3)" by blast
    then show ?thesis by (simp add: wc)
  qed
  from d ch r1 r2 r3 r4 wp r5 r6 wc r7 show ?thesis by blast
qed

subsection \<open>Ledger rows, wallet credits and the amount guard\<close>



lemma getMlSettings_frame:
  "customers (snd (getMlSettings st)) = customers st"
  "wallets (snd (getMlSettings st)) = wallets st"
  "commissions (snd (getMlSettings st)) = commissions st"
  "bookings (snd (getMlSettings st)) = bookings st"
  "leadSteps (snd (getMlSettings st)) = leadSteps st"
  by (simp_all add: getMlSettings_def split: list.splits)


lemma credit_loop_rows:
  "credit_loop rnd src
     (zip (map (\<lambda>(idx, u). \<lparr>i_uplineId = u_id u, i_levelFromDownline = u_level u,
                              i_pct = percent_at ps idx\<rparr>) (enumerate n chain)) amounts)
     st created details =
   (st\<lparr>commissions := commissions st @ expected_rows src chain amounts,
       wallets := foldl (credit_row rnd) (wallets st) (expected_rows src chain amounts)\<rparr>,
    created @ expected_rows src chain amounts,
    details @ map detail_of_row (expected_rows src chain amounts))"
proof (induction chain arbitrary: n amounts st created details)
  case Nil
  show ?case by (simp add: expected_rows_def)
next
  case (Cons e chain)
  show ?case
  proof (cases amounts)
    case Nil
    then show ?thesis by (simp add: expected_rows_def)
  next
    case (Cons a as)
    show ?thesis
    proof (cases "js_le a (Fin 0)")
      case True
      have "expected_rows src (e # chain) (a # as) = expected_rows src chain as"
        using True by (simp add: expected_rows_def)
      then show ?thesis using True Cons Cons.IH [of "Suc n" as st created details] by simp
    next
      case False
      let ?row = "\<lparr>m_customerId = u_id e, m_fromCustomerId = src,
                    m_levelFromDownline = u_level e, m_amount = a\<rparr>"
      have ex: "expected_rows src (e # chain) (a # as) = ?row # expected_rows src chain as"
        using False by (simp add: expected_rows_def)
      show ?thesis
        unfolding Cons ex
        using False
          Cons.IH [of "Suc n" as
            "st\<lparr>commissions := commissions st @ [?row],
                wallets := upsertWalletAdd rnd (wallets st) (u_id e) a\<rparr>"
            "created @ [?row]"
            "details @ [\<lparr>d_uplineId = u_id e, d_levelFromDownline = u_level e, d_amount = a\<rparr>]"]
        by (simp add: Let_def credit_row_def detail_of_row_def)
    qed
  qed
qed

lemma credit_loop_intended:
  "credit_loop rnd src (zip (intended_of settings chain) amounts) st created details =
   (st\<lparr>commissions := commissions st @ expected_rows src chain amounts,
       wallets := foldl (credit_row rnd) (wallets st) (expected_rows src chain amounts)\<rparr>,
    created @ expected_rows src chain amounts,
    details @ map detail_of_row (expected_rows src chain amounts))"
  unfolding intended_of_def Let_def by (rule credit_loop_rows)

lemma distribute_unfold:
  "distributeCommissionForPurchase rnd st src gross =
     (let settings = fst (getMlSettings st);
          st0 = snd (getMlSettings st);
          chain = getUplineChain (customers st) src 3;
          amounts = scaled_amounts rnd settings (intended_of settings chain) gross;
          rows = expected_rows src chain amounts
      in (\<lparr>r_created = length rows, r_totalAmount = js_sum rnd amounts,
           r_details = map detail_of_row rows\<rparr>,
          st0\<lparr>commissions := commissions st @ rows,
              wallets := foldl (credit_row rnd) (wallets st) rows\<rparr>))"
proof -
  obtain settings st0 where g: "getMlSettings st = (settings, st0)"
    by (cases "getMlSettings st")
  have fr: "customers st0 = customers st" "commissions st0 = commissions st"
    "wallets st0 = wallets st"
    using getMlSettings_frame [of st] by (simp_all add: g)
  show ?thesis
    by (simp add: distributeCommissionForPurchase_def g Let_def credit_loop_intended fr)
qed

text \<open>Rounding: what \<open>double_rounding\<close> gives.\<close>

lemma rounding_zero: "double_rounding rnd \<Longrightarrow> rnd 0 = Fin 0"
  by (simp add: double_rounding_def)


lemma rounding_not_negative:
  assumes "double_rounding rnd" "0 \<le> x"
  shows "\<not> js_lt (rnd x) (Fin 0)"
proof (cases "x = 0")
  case True
  with assms show ?thesis by (simp add: rounding_zero)
next
  case False
  with assms(2) have "0 < x" by simp
  with assms(1) show ?thesis unfolding double_rounding_def by blast
qed

lemma rounding_positive:
  assumes "double_rounding rnd" "1 / 2 ^ 1022 \<le> x" "x \<le> 2 ^ 1023"
  shows "\<exists>y. rnd x = Fin y \<and> 0 < y"
proof -
  have "(0::real) < 1 / 2 ^ 1022" by simp
  from this assms(2) have pos: "0 < x" by (rule less_le_trans)
  then have ab: "\<bar>x\<bar> = x" by simp
  from assms(1) have "1 / 2 ^ 1022 \<le> \<bar>x\<bar> \<and> \<bar>x\<bar> \<le> 2 ^ 1023 \<longrightarrow> isFinite (rnd x) \<and> rnd x \<noteq> Fin 0"
    unfolding double_rounding_def by blast
  moreover have "1 / 2 ^ 1022 \<le> \<bar>x\<bar> \<and> \<bar>x\<bar> \<le> 2 ^ 1023"
    unfolding ab using assms(2,3) by (rule conjI)
  ultimately have fin: "isFinite (rnd x) \<and> rnd x \<noteq> Fin 0" by (rule mp)
  then obtain y where y: "rnd x = Fin y" by (cases "rnd x") simp_all
  with fin have "y \<noteq> 0" by simp
  moreover from rounding_not_negative [OF assms(1), of x] pos y have "0 \<le> y" by simp
  ultimately show ?thesis using y by simp
qed

lemma double_rounding_exact: "double_rounding Fin"
proof -
  have "x \<noteq> 0" if "1 / 2 ^ 1022 \<le> \<bar>x\<bar>" for x :: real
  proof -
    have "(0::real) < 1 / 2 ^ 1022" by simp
    from this that have "0 < \<bar>x\<bar>" by (rule less_le_trans)
    then show ?thesis by simp
  qed
  then have "\<forall>x::real. 1 / 2 ^ 1022 \<le> \<bar>x\<bar> \<and> \<bar>x\<bar> \<le> 2 ^ 1023 \<longrightarrow> isFinite (Fin x) \<and> Fin x \<noteq> Fin 0"
    by simp
  then show ?thesis unfolding double_rounding_def by simp
qed

lemma tiny_le_hundredth: "(1::real) / 2 ^ 1022 \<le> 1 / 100"
proof -
  have "(2::real) ^ 7 \<le> 2 ^ 1022" by (rule power_increasing) simp_all
  then have "(1::real) / 2 ^ 1022 \<le> 1 / 2 ^ 7" by (simp add: frac_le)
  also have "\<dots> \<le> 1 / 100" by simp
  finally show ?thesis .
qed

lemma percent_rounds_positive:
  assumes "double_rounding rnd" "1 \<le> p" "p \<le> 100"
  shows "\<exists>y. rnd (p / 100) = Fin y \<and> 0 < y"
proof (rule rounding_positive [OF assms(1)])
  have "(1::real) / 100 \<le> p / 100" using assms(2) by simp
  with tiny_le_hundredth show "1 / 2 ^ 1022 \<le> p / 100" by (rule order_trans)
  have "p / 100 \<le> 1" using assms(3) by simp
  also have "(1::real) \<le> 2 ^ 1023" by (rule one_le_power) simp
  finally show "p / 100 \<le> 2 ^ 1023" .
qed

lemma percent_of_infinity:
  assumes "double_rounding rnd" "1 \<le> p" "p \<le> 100"
  shows "js_mul rnd (js_div rnd (Fin p) (Fin 100)) PosInf = PosInf"
proof -
  from percent_rounds_positive [OF assms] obtain y where "rnd (p / 100) = Fin y" "0 < y"
    by blast
  then show ?thesis by (simp add: js_inf_def)
qed






















lemma chain_D: "getUplineChain line_customers ''D'' 3 = chain_of_D"
  by (simp add: getUplineChain_def getUplineChain_loop.simps customer_findUnique_def
      line_customers_def chain_of_D_def Let_def)







lemma referrals_distribute_rejects:
  assumes "invalid_amount gross" "gross \<noteq> PosInf"
  shows "referrals_distribute rnd st user gross =
           (Inl (if user_type user \<noteq> CustomerUser then (403, ''Forbidden'')
                 else (400, ''amount required'')), st)"
  using assms by (cases gross) (auto simp: referrals_distribute_def invalid_amount_def js_le_def)

lemma admin_distribute_rejects:
  assumes "user_type user = Admin" "truthy_str bookingId"
    and "booking_findUnique (bookings st) (the bookingId) = Some booking"
    and "truthy_str (b_customerId booking)"
    and "b_totalPayable booking = Some gross" "invalid_amount gross"
  shows "admin_distribute_for_booking rnd st user bookingId =
           (Inl (400, ''Booking totalPayable is not set or invalid''), st)"
  using assms by (auto simp: admin_distribute_for_booking_def invalid_amount_def)

lemma admin_distribute_rejects_unset:
  assumes "user_type user = Admin" "truthy_str bookingId"
    and "booking_findUnique (bookings st) (the bookingId) = Some booking"
    and "truthy_str (b_customerId booking)"
    and "b_totalPayable booking = None"
  shows "admin_distribute_for_booking rnd st user bookingId =
           (Inl (400, ''Booking totalPayable is not set or invalid''), st)"
  using assms by (auto simp: admin_distribute_for_booking_def js_le_def)

lemma amounts_of_infinity:
  assumes "double_rounding rnd"
  shows "scaled_amounts rnd default_settings (intended_of default_settings chain_of_D) PosInf
         = [PosInf, PosInf, PosInf]"
proof -
  have p: "js_mul rnd (js_div rnd (Fin 4) (Fin 100)) PosInf = PosInf"
    "js_mul rnd (js_div rnd (Fin 2) (Fin 100)) PosInf = PosInf"
    "js_mul rnd (js_div rnd (Fin 1) (Fin 100)) PosInf = PosInf"
    by (rule percent_of_infinity [OF assms]; simp)+
  have i: "intended_of default_settings chain_of_D =
     [\<lparr>i_uplineId = ''C'', i_levelFromDownline = 1, i_pct = Fin 2\<rparr>,
      \<lparr>i_uplineId = ''B'', i_levelFromDownline = 2, i_pct = Fin 1\<rparr>,
      \<lparr>i_uplineId = ''A'', i_levelFromDownline = 3, i_pct = Fin 1\<rparr>]"
    by (simp add: intended_of_def percent_at_def chain_of_D_def default_settings_def Let_def)
  have c: "maxPayoutPercent default_settings = Fin 4" by (simp add: default_settings_def)
  show ?thesis
    unfolding scaled_amounts_def Let_def i c
    by (simp add: p js_sum_def js_gt_def del: js_div.simps)
qed

text \<open>
  Claim C7 on the customer entry point, at an infinite amount. \<^verbatim>\<open>Number(amount)\<close> is
  \<^verbatim>\<open>Infinity\<close> for the request body \<^verbatim>\<open>{"amount": "Infinity"}\<close> or \<^verbatim>\<open>{"amount": 1e999}\<close>. The
  guard \<^verbatim>\<open>!gross || gross <= 0\<close> lets it through, where the admin entry point tests
  \<^verbatim>\<open>Number.isFinite\<close>: for customer D of \<open>line_store\<close> the call is not rejected, and three
  commission rows with an infinite amount and three infinite wallet balances are written,
  whatever the rounding of doubles does to the percentages 0.04, 0.02 and 0.01.
\<close>

theorem referrals_distribute_infinite_amount:
  assumes "double_rounding rnd"
  shows "invalid_amount PosInf
   \<and> fst (referrals_distribute rnd line_store customer_D PosInf) \<noteq> Inl (400, ''amount required'')
   \<and> map m_amount (commissions (snd (referrals_distribute rnd line_store customer_D PosInf)))
       = [PosInf, PosInf, PosInf]
   \<and> map w_balance (wallets (snd (referrals_distribute rnd line_store customer_D PosInf)))
       = [PosInf, PosInf, PosInf]"
proof -
  have cs: "customers line_store = line_customers" "commissions line_store = []"
    "wallets line_store = []"
    by (simp_all add: line_store_def)
  have se: "fst (getMlSettings line_store) = default_settings"
    by (simp add: getMlSettings_def line_store_def)
  note am = amounts_of_infinity [OF assms]
  have rows: "expected_rows ''D'' chain_of_D [PosInf, PosInf, PosInf] =
     [\<lparr>m_customerId = ''C'', m_fromCustomerId = ''D'', m_levelFromDownline = 1, m_amount = PosInf\<rparr>,
      \<lparr>m_customerId = ''B'', m_fromCustomerId = ''D'', m_levelFromDownline = 2, m_amount = PosInf\<rparr>,
      \<lparr>m_customerId = ''A'', m_fromCustomerId = ''D'', m_levelFromDownline = 3, m_amount = PosInf\<rparr>]"
    by (simp add: expected_rows_def chain_of_D_def js_le_def)
  have call: "referrals_distribute rnd line_store customer_D PosInf =
      (Inr (fst (distributeCommissionForPurchase rnd line_store ''D'' PosInf)),
       snd (distributeCommissionForPurchase rnd line_store ''D'' PosInf))"
    by (simp add: referrals_distribute_def customer_D_def js_le_def case_prod_unfold Let_def)
  have st: "snd (distributeCommissionForPurchase rnd line_store ''D'' PosInf) =
      (snd (getMlSettings line_store))
        \<lparr>commissions := expected_rows ''D'' chain_of_D [PosInf, PosInf, PosInf],
         wallets := foldl (credit_row rnd) [] (expected_rows ''D'' chain_of_D [PosInf, PosInf, PosInf])\<rparr>"
    unfolding distribute_unfold Let_def cs se chain_D am by simp
  show ?thesis
    unfolding call st rows
    by (simp add: invalid_amount_def credit_row_def upsertWalletAdd_def)
qed

theorem referrals_distribute_infinite_amount_witness:
  "double_rounding Fin
   \<and> fst (referrals_distribute Fin line_store customer_D PosInf) \<noteq> Inl (400, ''amount required'')
   \<and> map m_amount (commissions (snd (referrals_distribute Fin line_store customer_D PosInf)))
       = [PosInf, PosInf, PosInf]
   \<and> map w_balance (wallets (snd (referrals_distribute Fin line_store customer_D PosInf)))
       = [PosInf, PosInf, PosInf]
   \<and> length (commissions (snd (referrals_distribute Fin line_store customer_D PosInf))) = 3
   \<and> commissions line_store = [] \<and> wallets line_store = []"
proof -
  have r: "double_rounding Fin" by (rule double_rounding_exact)
  note t = referrals_distribute_infinite_amount [OF r]
  have "length (map m_amount (commissions (snd (referrals_distribute Fin line_store customer_D PosInf)))) = 3"
    using t by simp
  then show ?thesis
    using t r by (simp add: line_store_def)
qed

subsection \<open>Due days\<close>

lemma msPerDay_pos: "0 < msPerDay"
  by (simp add: msPerDay_def)

lemma localMidnight_day_number:
  "localMidnight zone t = day_number zone t * msPerDay - zone (day_number zone t * msPerDay) False"
  by (simp add: localMidnight_def UTC_def LocalTime_def day_number_def)

text \<open>
  Between two days whose midnights have the same offset from UTC, the program counts the
  calendar days.
\<close>

lemma calendarDays_day_number:
  assumes "zone (day_number zone now * msPerDay) False
           = zone (day_number zone startDate * msPerDay) False"
  shows "calendarDays zone startDate now = day_number zone now - day_number zone startDate"
proof -
  have "localMidnight zone now - localMidnight zone startDate
        = (day_number zone now - day_number zone startDate) * msPerDay"
    unfolding localMidnight_day_number assms by (simp add: algebra_simps)
  moreover have "msPerDay \<noteq> 0" using msPerDay_pos by simp
  ultimately show ?thesis by (simp add: calendarDays_def)
qed

lemma calendarDays_fixed_zone:
  "calendarDays (fixed_zone tz) startDate now
   = day_number (fixed_zone tz) now - day_number (fixed_zone tz) startDate"
  by (rule calendarDays_day_number) (simp add: fixed_zone_def)

lemma min_max_clamp: "min (max d 1) 5 = clamp_1_5 d"
  by (simp add: clamp_1_5_def)

lemma clamp_1_5_range: "1 \<le> clamp_1_5 d \<and> clamp_1_5 d \<le> 5"
  by (simp add: clamp_1_5_def)

lemma calculateDueDays_nth:
  assumes "k < length steps"
  shows "calculateDueDays zone now steps createdAt ! k =
         dueDays_step zone now (sort_key s_order steps) createdAt k (sort_key s_order steps ! k)"
  using assms by (simp add: calculateDueDays_def Let_def nth_enumerate_eq)

lemma length_calculateDueDays:
  "length (calculateDueDays zone now steps createdAt) = length steps"
  by (simp add: calculateDueDays_def Let_def)

text \<open>
  In every zone: in the list sorted by order, the result at position \<open>k\<close> is the step at
  that position with only its due days set: 0 for a completed step, 0 for a step after the
  first whose predecessor is not completed, and otherwise between 1 and 5.
\<close>

lemma calculateDueDays_shape:
  assumes "k < length steps"
  shows "let sortedSteps = sort_key s_order steps;
             s = sortedSteps ! k;
             r = calculateDueDays zone now steps createdAt ! k
         in r = s\<lparr>s_dueDays := s_dueDays r\<rparr>
          \<and> (s_completed s \<longrightarrow> s_dueDays r = 0)
          \<and> (\<not> s_completed s \<and> 0 < k \<and> \<not> s_completed (sortedSteps ! (k - 1)) \<longrightarrow> s_dueDays r = 0)
          \<and> (s_dueDays r = 0 \<or> (1 \<le> s_dueDays r \<and> s_dueDays r \<le> 5))"
proof -
  define sortedSteps where "sortedSteps = sort_key s_order steps"
  define s where "s = sortedSteps ! k"
  define r where "r = calculateDueDays zone now steps createdAt ! k"
  have r: "r = dueDays_step zone now sortedSteps createdAt k s"
    unfolding r_def s_def sortedSteps_def using assms by (rule calculateDueDays_nth)
  have frame: "r = s\<lparr>s_dueDays := s_dueDays r\<rparr>"
    by (simp add: r dueDays_step_def Let_def split: option.split)
  have completed: "s_dueDays r = 0" if "s_completed s"
    using that by (simp add: r dueDays_step_def)
  have pending: "s_dueDays r = 0"
    if "\<not> s_completed s \<and> 0 < k \<and> \<not> s_completed (sortedSteps ! (k - 1))"
    using that by (simp add: r dueDays_step_def Let_def)
  have range: "s_dueDays r = 0 \<or> (1 \<le> s_dueDays r \<and> s_dueDays r \<le> 5)"
    using clamp_1_5_range
    by (simp add: r dueDays_step_def Let_def min_max_clamp split: option.split)
  from frame completed pending range have
    "r = s\<lparr>s_dueDays := s_dueDays r\<rparr>
          \<and> (s_completed s \<longrightarrow> s_dueDays r = 0)
          \<and> (\<not> s_completed s \<and> 0 < k \<and> \<not> s_completed (sortedSteps ! (k - 1)) \<longrightarrow> s_dueDays r = 0)
          \<and> (s_dueDays r = 0 \<or> (1 \<le> s_dueDays r \<and> s_dueDays r \<le> 5))"
    by blast
  then show ?thesis
    unfolding Let_def r_def s_def sortedSteps_def .
qed

text \<open>
  In a zone of fixed offset the due days of an active step are the calendar days since its
  clock started, clamped to 1..5: for an open first step the days since the booking's
  creation, for an open step whose predecessor was completed at \<open>t\<close> the days since \<open>t\<close>.
\<close>

lemma calculateDueDays_fixed_zone:
  assumes "k < length steps"
  shows "let sortedSteps = sort_key s_order steps;
             s = sortedSteps ! k;
             r = calculateDueDays (fixed_zone tz) now steps createdAt ! k
         in (\<not> s_completed s \<and> k = 0 \<longrightarrow>
                s_dueDays r = clamp_1_5 (day_number (fixed_zone tz) now - day_number (fixed_zone tz) createdAt))
          \<and> (\<forall>t. \<not> s_completed s \<and> 0 < k \<and> s_completed (sortedSteps ! (k - 1))
                  \<and> s_completedAt (sortedSteps ! (k - 1)) = Some t \<longrightarrow>
                s_dueDays r = clamp_1_5 (day_number (fixed_zone tz) now - day_number (fixed_zone tz) t))"
proof -
  define sortedSteps where "sortedSteps = sort_key s_order steps"
  define s where "s = sortedSteps ! k"
  define r where "r = calculateDueDays (fixed_zone tz) now steps createdAt ! k"
  have r: "r = dueDays_step (fixed_zone tz) now sortedSteps createdAt k s"
    unfolding r_def s_def sortedSteps_def using assms by (rule calculateDueDays_nth)
  have first_step:
    "s_dueDays r = clamp_1_5 (day_number (fixed_zone tz) now - day_number (fixed_zone tz) createdAt)"
    if "\<not> s_completed s \<and> k = 0"
    using that by (simp add: r dueDays_step_def min_max_clamp calendarDays_fixed_zone)
  have active: "s_dueDays r = clamp_1_5 (day_number (fixed_zone tz) now - day_number (fixed_zone tz) t)"
    if "\<not> s_completed s \<and> 0 < k \<and> s_completed (sortedSteps ! (k - 1))
        \<and> s_completedAt (sortedSteps ! (k - 1)) = Some t" for t
    using that by (simp add: r dueDays_step_def Let_def min_max_clamp calendarDays_fixed_zone)
  from first_step active have
    "(\<not> s_completed s \<and> k = 0 \<longrightarrow>
                s_dueDays r = clamp_1_5 (day_number (fixed_zone tz) now - day_number (fixed_zone tz) createdAt))
          \<and> (\<forall>t. \<not> s_completed s \<and> 0 < k \<and> s_completed (sortedSteps ! (k - 1))
                  \<and> s_completedAt (sortedSteps ! (k - 1)) = Some t \<longrightarrow>
                s_dueDays r = clamp_1_5 (day_number (fixed_zone tz) now - day_number (fixed_zone tz) t))"
    by blast
  then show ?thesis
    unfolding Let_def r_def s_def sortedSteps_def .
qed

lemma example_days:
  "day_number (fixed_zone ist) (- ist) = 0" "day_number (fixed_zone ist) eleven_pm_day_3 = 3"
  "day_number (fixed_zone ist) one_am_day_4 = 4" "day_number (fixed_zone ist) noon_day_10 = 10"
  by (simp_all add: day_number_def fixed_zone_def ist_def eleven_pm_day_3_def one_am_day_4_def
      noon_day_10_def msPerDay_def)

lemma example_sorted:
  "sort_key s_order [step_wiring, step_meeting, step_survey] = [step_meeting, step_survey, step_wiring]"
  by (simp add: step_wiring_def step_meeting_def step_survey_def)

text \<open>
  A step whose clock started at 23:00 and that is read at 01:00 of the next day, two hours
  later, has 1 due day; a step that has been active for a week has 5.
\<close>

lemma calculateDueDays_examples:
  "one_am_day_4 - eleven_pm_day_3 = 2 * 3600000"
  "map s_dueDays (calculateDueDays (fixed_zone ist) one_am_day_4
                    [step_wiring, step_meeting, step_survey] (- ist)) = [0, 1, 0]"
  "map s_dueDays (calculateDueDays (fixed_zone ist) noon_day_10
                    [step_wiring, step_meeting, step_survey] (- ist)) = [0, 5, 0]"
  "map s_dueDays (calculateDueDays (fixed_zone ist) one_am_day_4 [step_survey] (- ist)) = [4]"
proof -
  show "one_am_day_4 - eleven_pm_day_3 = 2 * 3600000"
    by (simp add: one_am_day_4_def eleven_pm_day_3_def msPerDay_def)
  have st: "s_completed step_meeting" "\<not> s_completed step_survey" "\<not> s_completed step_wiring"
    "s_completedAt step_meeting = Some eleven_pm_day_3"
    by (simp_all add: step_wiring_def step_meeting_def step_survey_def)
  show "map s_dueDays (calculateDueDays (fixed_zone ist) one_am_day_4
                    [step_wiring, step_meeting, step_survey] (- ist)) = [0, 1, 0]"
    unfolding calculateDueDays_def Let_def example_sorted
    by (simp add: enumerate_eq_zip upt_rec dueDays_step_def st calendarDays_fixed_zone example_days)
  show "map s_dueDays (calculateDueDays (fixed_zone ist) noon_day_10
                    [step_wiring, step_meeting, step_survey] (- ist)) = [0, 5, 0]"
    unfolding calculateDueDays_def Let_def example_sorted
    by (simp add: enumerate_eq_zip upt_rec dueDays_step_def st calendarDays_fixed_zone example_days)
  show "map s_dueDays (calculateDueDays (fixed_zone ist) one_am_day_4 [step_survey] (- ist)) = [4]"
    unfolding calculateDueDays_def Let_def
    by (simp add: dueDays_step_def st calendarDays_fixed_zone example_days)
qed

lemma new_york_days:
  "day_number new_york_2025 noon_march_8 = 20155"
  "day_number new_york_2025 noon_march_10 = 20157"
  by (simp_all add: day_number_def new_york_2025_def noon_march_8_def noon_march_10_def msPerDay_def)

lemma new_york_midnights:
  "localMidnight new_york_2025 noon_march_8 = 20155 * msPerDay + 5 * 3600000"
  "localMidnight new_york_2025 noon_march_10 = 20157 * msPerDay + 4 * 3600000"
  unfolding localMidnight_day_number new_york_days
  by (simp_all add: new_york_2025_def msPerDay_def)

text \<open>
  Claim C3, where the clocks go forward. In New York a booking is created at noon of
  8 March 2025 and its first step, still open, is read at noon of 10 March. Two midnights
  lie between the two instants, so the step is 2 calendar days old and its due days are 2 by
  the claim, and by the comment \<^verbatim>\<open>Calculate CALENDAR DAYS (not 24-hour periods)\<close> of the
  program. The program divides the time between the two local midnights by 24 hours;
  9 March has only 23 hours, the midnights are 47 hours apart, and the result is 1. In
  the zone that stays five hours (18000000 milliseconds) behind UTC the same call gives 2.
\<close>

theorem calculateDueDays_clock_change:
  "day_number new_york_2025 noon_march_8 = 20155
   \<and> day_number new_york_2025 noon_march_10 = 20157
   \<and> localMidnight new_york_2025 noon_march_10 - localMidnight new_york_2025 noon_march_8
       = 47 * 3600000
   \<and> map s_dueDays (calculateDueDays new_york_2025 noon_march_10 [step_visit] noon_march_8) = [1]
   \<and> clamp_1_5 (day_number new_york_2025 noon_march_10 - day_number new_york_2025 noon_march_8) = 2
   \<and> map s_dueDays (calculateDueDays (fixed_zone (- 18000000)) noon_march_10 [step_visit] noon_march_8)
       = [2]"
proof -
  have gap: "localMidnight new_york_2025 noon_march_10 - localMidnight new_york_2025 noon_march_8
             = 47 * 3600000"
    by (simp add: new_york_midnights msPerDay_def)
  have st: "\<not> s_completed step_visit" by (simp add: step_visit_def)
  have code: "map s_dueDays (calculateDueDays new_york_2025 noon_march_10 [step_visit] noon_march_8) = [1]"
    unfolding calculateDueDays_def Let_def
    by (simp add: dueDays_step_def st calendarDays_def gap msPerDay_def)
  have claim: "clamp_1_5 (day_number new_york_2025 noon_march_10 - day_number new_york_2025 noon_march_8) = 2"
    by (simp add: new_york_days clamp_1_5_def)
  have days: "day_number (fixed_zone (- 18000000)) noon_march_8 = 20155"
    "day_number (fixed_zone (- 18000000)) noon_march_10 = 20157"
    by (simp_all add: day_number_def fixed_zone_def noon_march_8_def noon_march_10_def msPerDay_def)
  have fixed: "map s_dueDays (calculateDueDays (fixed_zone (- 18000000)) noon_march_10 [step_visit]
                 noon_march_8) = [2]"
    unfolding calculateDueDays_def Let_def
    by (simp add: dueDays_step_def st calendarDays_fixed_zone days)
  from new_york_days gap code claim fixed show ?thesis by blast
qed

subsection \<open>Step completion\<close>

lemma staff_complete_cases:
  assumes "staff_complete_step now st user stepId notes = (Inr res, st')"
  obtains step lead where
    "user_type user = Staff" "truthy_str notes" "trim (the notes) \<noteq> []"
    "find (\<lambda>s. s_id s = stepId) (leadSteps st) = Some step"
    "booking_findUnique (bookings st) (s_leadId step) = Some lead"
    "b_assignedStaffId lead = Some (sub user)" "\<not> s_completed step"
  using assms
  by (auto simp: staff_complete_step_def Let_def split: if_splits option.splits)

lemma staff_complete_success:
  assumes "user_type user = Staff" "truthy_str notes" "trim (the notes) \<noteq> []"
    "find (\<lambda>s. s_id s = stepId) (leadSteps st) = Some step"
    "booking_findUnique (bookings st) (s_leadId step) = Some lead"
    "b_assignedStaffId lead = Some (sub user)" "\<not> s_completed step"
  shows "staff_complete_step now st user stepId notes =
    (let upd = (\<lambda>s. s\<lparr>s_completed := True, s_completedAt := Some now,
                        s_completionNotes := Some (trim (the notes))\<rparr>);
         steps' = leadStep_update (leadSteps st) stepId upd;
         allSteps = filter (\<lambda>s. s_leadId s = b_id lead) steps';
         newPercent = js_round (real (length (filter s_completed allSteps)) / real (length allSteps) * 100)
     in (Inr (upd step, \<lparr>p_completed = length (filter s_completed allSteps),
                          p_total = length allSteps, p_percent = newPercent\<rparr>),
         st\<lparr>leadSteps := steps',
            bookings := booking_update (bookings st) (b_id lead) (\<lambda>b. b\<lparr>b_percent := newPercent\<rparr>)\<rparr>))"
  using assms by (simp add: staff_complete_step_def Let_def)

lemma certificateUrl_booking_update_percent:
  "map b_certificateUrl (booking_update bs i (\<lambda>b. b\<lparr>b_percent := p\<rparr>)) = map b_certificateUrl bs"
  by (induction bs) (simp_all add: booking_update_def)

text \<open>
  Claim C10. A successful staff-facing completion rewrites the row of the completed step
  in its fields \<open>completed\<close>, \<open>completedAt\<close> and \<open>completionNotes\<close> and the \<open>percent\<close> of
  the step's booking, and nothing else: every other step row and every other booking field,
  the certificate handle among them, is as before, and so are the other tables. The handler
  has no access to the certificate generator; issuing the certificate and setting the next
  step's due days belong to the admin-facing handler alone.
\<close>

theorem staff_complete_frame:
  assumes "staff_complete_step now st user stepId notes = (Inr res, st')"
  shows "leadSteps st' =
           map (\<lambda>s. if s_id s = stepId
                     then s\<lparr>s_completed := True, s_completedAt := Some now,
                            s_completionNotes := Some (trim (the notes))\<rparr>
                     else s) (leadSteps st)
       \<and> (\<exists>step lead. find (\<lambda>s. s_id s = stepId) (leadSteps st) = Some step
             \<and> booking_findUnique (bookings st) (s_leadId step) = Some lead
             \<and> bookings st' =
                 map (\<lambda>b. if b_id b = b_id lead then b\<lparr>b_percent := p_percent (snd res)\<rparr> else b)
                   (bookings st))
       \<and> map b_certificateUrl (bookings st') = map b_certificateUrl (bookings st)
       \<and> customers st' = customers st \<and> wallets st' = wallets st
       \<and> commissions st' = commissions st \<and> mlSettings st' = mlSettings st"
proof -
  from assms obtain step lead where h:
    "user_type user = Staff" "truthy_str notes" "trim (the notes) \<noteq> []"
    "find (\<lambda>s. s_id s = stepId) (leadSteps st) = Some step"
    "booking_findUnique (bookings st) (s_leadId step) = Some lead"
    "b_assignedStaffId lead = Some (sub user)" "\<not> s_completed step"
    by (rule staff_complete_cases)
  note eq = staff_complete_success [OF h, of now]
  from assms eq have st': "st' = st\<lparr>leadSteps := leadStep_update (leadSteps st) stepId
            (\<lambda>s. s\<lparr>s_completed := True, s_completedAt := Some now,
                    s_completionNotes := Some (trim (the notes))\<rparr>),
         bookings := booking_update (bookings st) (b_id lead)
            (\<lambda>b. b\<lparr>b_percent := p_percent (snd res)\<rparr>)\<rparr>"
    by (auto simp: Let_def)
  have a: "leadSteps st' =
           map (\<lambda>s. if s_id s = stepId
                     then s\<lparr>s_completed := True, s_completedAt := Some now,
                            s_completionNotes := Some (trim (the notes))\<rparr>
                     else s) (leadSteps st)"
    by (simp add: st' leadStep_update_def)
  have b: "bookings st' =
             map (\<lambda>b. if b_id b = b_id lead then b\<lparr>b_percent := p_percent (snd res)\<rparr> else b)
               (bookings st)"
    by (simp add: st' booking_update_def)
  have c: "map b_certificateUrl (bookings st') = map b_certificateUrl (bookings st)"
    by (simp add: st' certificateUrl_booking_update_percent)
  have d: "customers st' = customers st \<and> wallets st' = wallets st
       \<and> commissions st' = commissions st \<and> mlSettings st' = mlSettings st"
    by (simp add: st')
  from a b c d h(4,5) show ?thesis by blast
qed


lemma trim_done: "trim '' done '' = ''done''"
  by (simp add: trim_def is_space_def)

lemma staff_example:
  "staff_complete_step one_am_day_4 (store_with_steps [step_meeting, step_survey, step_certificate])
     staff_S1 ''s2'' (Some '' done '') =
   (Inr (step_survey\<lparr>s_completed := True, s_completedAt := Some one_am_day_4,
                      s_completionNotes := Some ''done''\<rparr>,
         \<lparr>p_completed = 2, p_total = 3, p_percent = 67\<rparr>),
    (store_with_steps
       [step_meeting,
        step_survey\<lparr>s_completed := True, s_completedAt := Some one_am_day_4,
                    s_completionNotes := Some ''done''\<rparr>,
        step_certificate])
      \<lparr>bookings := [booking_L1\<lparr>b_percent := 67\<rparr>]\<rparr>)"
  by (simp add: staff_complete_step_def Let_def store_with_steps_def staff_S1_def booking_L1_def
      booking_findUnique_def leadStep_update_def booking_update_def trim_done js_round_def
      step_meeting_def step_survey_def step_certificate_def)

theorem staff_complete_frame_witness:
  "fst (staff_complete_step one_am_day_4
          (store_with_steps [step_meeting, step_survey, step_certificate]) staff_S1 ''s2''
          (Some '' done ''))
     = Inr (step_survey\<lparr>s_completed := True, s_completedAt := Some one_am_day_4,
                        s_completionNotes := Some ''done''\<rparr>,
            \<lparr>p_completed = 2, p_total = 3, p_percent = 67\<rparr>)
   \<and> leadSteps (snd (staff_complete_step one_am_day_4
          (store_with_steps [step_meeting, step_survey, step_certificate]) staff_S1 ''s2''
          (Some '' done '')))
     = [step_meeting,
        step_survey\<lparr>s_completed := True, s_completedAt := Some one_am_day_4,
                    s_completionNotes := Some ''done''\<rparr>,
        step_certificate]
   \<and> map b_certificateUrl (bookings (snd (staff_complete_step one_am_day_4
          (store_with_steps [step_meeting, step_survey, step_certificate]) staff_S1 ''s2''
          (Some '' done '')))) = [None]"
proof -
  note T = staff_complete_frame [OF staff_example]
  have ids: "s_id step_meeting \<noteq> ''s2''" "s_id step_survey = ''s2''" "s_id step_certificate \<noteq> ''s2''"
    by (simp_all add: step_meeting_def step_survey_def step_certificate_def)
  have a: "leadSteps ((store_with_steps
       [step_meeting,
        step_survey\<lparr>s_completed := True, s_completedAt := Some one_am_day_4,
                    s_completionNotes := Some ''done''\<rparr>,
        step_certificate]) \<lparr>bookings := [booking_L1\<lparr>b_percent := 67\<rparr>]\<rparr>)
     = [step_meeting,
        step_survey\<lparr>s_completed := True, s_completedAt := Some one_am_day_4,
                    s_completionNotes := Some ''done''\<rparr>,
        step_certificate]"
    using T [THEN conjunct1] by (simp add: store_with_steps_def ids trim_done)
  have c: "map b_certificateUrl (bookings ((store_with_steps
       [step_meeting,
        step_survey\<lparr>s_completed := True, s_completedAt := Some one_am_day_4,
                    s_completionNotes := Some ''done''\<rparr>,
        step_certificate]) \<lparr>bookings := [booking_L1\<lparr>b_percent := 67\<rparr>]\<rparr>)) = [None]"
    using T [THEN conjunct2, THEN conjunct2, THEN conjunct1]
    by (simp add: store_with_steps_def booking_L1_def)
  show ?thesis
    unfolding staff_example using a c by simp
qed

text \<open>
  The staff-facing handler computes the percentage over the step rows the booking has, with
  no upper clamp.
\<close>

lemma staff_percent_formula:
  assumes "staff_complete_step now st user stepId notes = (Inr (updatedStep, progress), st')"
  shows "p_percent progress = js_round (real (p_completed progress) / real (p_total progress) * 100)
       \<and> (\<exists>step. find (\<lambda>s. s_id s = stepId) (leadSteps st) = Some step
            \<and> p_total progress = length (filter (\<lambda>s. s_leadId s = s_leadId step) (leadSteps st'))
            \<and> p_completed progress =
                length (filter s_completed (filter (\<lambda>s. s_leadId s = s_leadId step) (leadSteps st'))))"
proof -
  from assms obtain step lead where h:
    "user_type user = Staff" "truthy_str notes" "trim (the notes) \<noteq> []"
    "find (\<lambda>s. s_id s = stepId) (leadSteps st) = Some step"
    "booking_findUnique (bookings st) (s_leadId step) = Some lead"
    "b_assignedStaffId lead = Some (sub user)" "\<not> s_completed step"
    by (rule staff_complete_cases)
  have lead: "b_id lead = s_leadId step"
    using h(5) by (auto simp: booking_findUnique_def find_Some_iff)
  from assms staff_complete_success [OF h, of now] lead h(4) show ?thesis
    by (auto simp: Let_def)
qed

text \<open>
  Claim C5 on the staff-facing path, at a booking of which one step is materialized (steps
  are created one at a time by the admin's add-content route). The staff member completes
  that step: the handler divides by the one row it finds and stores 100 percent, where one
  completed step of the twelve of the template is 8 percent. The admin-facing handler,
  given the same completion, does not write the percentage at all: it stays 0.
\<close>

theorem staff_complete_percent_materialized:
  "map b_percent (bookings (snd (staff_complete_step one_am_day_4 (store_with_steps [step_survey])
      staff_S1 ''s2'' (Some ''done'')))) = [100]
   \<and> length (filter s_completed (leadSteps (snd (staff_complete_step one_am_day_4
      (store_with_steps [step_survey]) staff_S1 ''s2'' (Some ''done''))))) = 1
   \<and> spec_percent 1 = 8
   \<and> map s_completed (leadSteps (fst (snd (admin_patch_step failing_generator one_am_day_4
      (store_with_steps [step_survey]) admin_user ''L1'' ''s2'' True)))) = [True]
   \<and> map b_percent (bookings (fst (snd (admin_patch_step failing_generator one_am_day_4
      (store_with_steps [step_survey]) admin_user ''L1'' ''s2'' True)))) = [0]"
proof -
  have trim: "trim ''done'' = ''done''" by (simp add: trim_def is_space_def)
  have staff: "staff_complete_step one_am_day_4 (store_with_steps [step_survey]) staff_S1 ''s2''
      (Some ''done'') =
    (Inr (step_survey\<lparr>s_completed := True, s_completedAt := Some one_am_day_4,
                      s_completionNotes := Some ''done''\<rparr>,
          \<lparr>p_completed = 1, p_total = 1, p_percent = 100\<rparr>),
     (store_with_steps
       [step_survey\<lparr>s_completed := True, s_completedAt := Some one_am_day_4,
                    s_completionNotes := Some ''done''\<rparr>])
      \<lparr>bookings := [booking_L1\<lparr>b_percent := 100\<rparr>]\<rparr>)"
    by (simp add: staff_complete_step_def Let_def store_with_steps_def staff_S1_def booking_L1_def
        booking_findUnique_def leadStep_update_def booking_update_def trim js_round_def
        step_survey_def)
  have spec: "spec_percent 1 = 8"
    by (simp add: spec_percent_def js_round_def)
  have admin: "fst (snd (admin_patch_step failing_generator one_am_day_4
      (store_with_steps [step_survey]) admin_user ''L1'' ''s2'' True)) =
     store_with_steps [step_survey\<lparr>s_completed := True, s_completedAt := Some one_am_day_4\<rparr>]"
    by (simp add: admin_patch_step_def after_completion_def activate_next_def
        certificate_cascade_def steps_of_lead_def patch_update_def latestCompletedAt_def
        List.map_filter_simps failing_generator_def Let_def store_with_steps_def admin_user_def
        booking_L1_def booking_findUnique_def leadStep_update_def step_survey_def)
  show ?thesis
    unfolding staff admin spec
    by (simp add: store_with_steps_def booking_L1_def step_survey_def)
qed

theorem staff_complete_percent_materialized_witness:
  "map b_percent (bookings (snd (staff_complete_step one_am_day_4 (store_with_steps [step_survey])
      staff_S1 ''s2'' (Some ''done'')))) \<noteq> [spec_percent 1]"
  using staff_complete_percent_materialized by simp


text \<open>
  Claim C6, as stated, fails on the admin-facing path, which has no check for a step that is
  already completed: the step completed at 23:00 on day 3 is completed again at 01:00 on day
  4, the call succeeds, and \<open>completedAt\<close> is overwritten with the later time.
\<close>

theorem admin_patch_recompletes_counterexample:
  "s_completed step_meeting
   \<and> s_completedAt step_meeting = Some eleven_pm_day_3
   \<and> fst (admin_patch_step failing_generator one_am_day_4 (store_with_steps [step_meeting])
         admin_user ''L1'' ''s1'' True)
       = Inr (step_meeting\<lparr>s_completedAt := Some one_am_day_4\<rparr>)
   \<and> map s_completedAt (leadSteps (fst (snd (admin_patch_step failing_generator one_am_day_4
         (store_with_steps [step_meeting]) admin_user ''L1'' ''s1'' True))))
       = [Some one_am_day_4]
   \<and> one_am_day_4 \<noteq> eleven_pm_day_3"
proof -
  have ne: "one_am_day_4 \<noteq> eleven_pm_day_3"
    by (simp add: one_am_day_4_def eleven_pm_day_3_def msPerDay_def)
  have run: "admin_patch_step failing_generator one_am_day_4 (store_with_steps [step_meeting])
         admin_user ''L1'' ''s1'' True =
     (Inr (step_meeting\<lparr>s_completedAt := Some one_am_day_4\<rparr>),
      store_with_steps [step_meeting\<lparr>s_completedAt := Some one_am_day_4\<rparr>],
      [(''L1'', one_am_day_4)])"
    by (simp add: admin_patch_step_def after_completion_def activate_next_def
        certificate_cascade_def steps_of_lead_def patch_update_def latestCompletedAt_def
        List.map_filter_simps failing_generator_def Let_def store_with_steps_def admin_user_def
        booking_L1_def booking_findUnique_def leadStep_update_def step_meeting_def)
  show ?thesis
    unfolding run using ne by (simp add: store_with_steps_def step_meeting_def)
qed

text \<open>
  Claim C6, amended to the staff-facing path. A call on a step that is already completed
  ends in an error and leaves the store as it was, so \<open>completed\<close>, \<open>completedAt\<close>, the notes
  and the booking's percentage keep their values. The error is 400 "Step is already
  completed" when the caller is the staff member assigned to the step's booking and the
  notes are not blank; a caller who fails one of the earlier checks gets that check's error.
\<close>

theorem staff_complete_already_completed:
  assumes "find (\<lambda>s. s_id s = stepId) (leadSteps st) = Some step" and "s_completed step"
  shows "snd (staff_complete_step now st user stepId notes) = st
       \<and> (\<exists>e. fst (staff_complete_step now st user stepId notes) = Inl e)
       \<and> (user_type user = Staff \<and> truthy_str notes \<and> trim (the notes) \<noteq> []
            \<and> (\<exists>lead. booking_findUnique (bookings st) (s_leadId step) = Some lead
                  \<and> b_assignedStaffId lead = Some (sub user))
          \<longrightarrow> fst (staff_complete_step now st user stepId notes)
                = Inl (400, ''Step is already completed''))"
  using assms
  by (auto simp: staff_complete_step_def Let_def split: option.splits)

theorem staff_complete_already_completed_witness:
  "find (\<lambda>s. s_id s = ''s1'') (leadSteps (store_with_steps [step_meeting, step_survey]))
     = Some step_meeting
   \<and> s_completed step_meeting
   \<and> user_type staff_S1 = Staff \<and> truthy_str (Some ''again'') \<and> trim (the (Some ''again'')) \<noteq> []
   \<and> booking_findUnique (bookings (store_with_steps [step_meeting, step_survey]))
        (s_leadId step_meeting) = Some booking_L1
   \<and> b_assignedStaffId booking_L1 = Some (sub staff_S1)
   \<and> staff_complete_step one_am_day_4 (store_with_steps [step_meeting, step_survey]) staff_S1
        ''s1'' (Some ''again'')
      = (Inl (400, ''Step is already completed''), store_with_steps [step_meeting, step_survey])"
proof -
  have f: "find (\<lambda>s. s_id s = ''s1'') (leadSteps (store_with_steps [step_meeting, step_survey]))
     = Some step_meeting"
    by (simp add: store_with_steps_def step_meeting_def)
  have c: "s_completed step_meeting" by (simp add: step_meeting_def)
  have u: "user_type staff_S1 = Staff \<and> truthy_str (Some ''again'')
      \<and> trim (the (Some ''again'')) \<noteq> []"
    by (simp add: staff_S1_def trim_def is_space_def)
  have b: "booking_findUnique (bookings (store_with_steps [step_meeting, step_survey]))
        (s_leadId step_meeting) = Some booking_L1"
    by (simp add: store_with_steps_def booking_findUnique_def booking_L1_def step_meeting_def)
  have a: "b_assignedStaffId booking_L1 = Some (sub staff_S1)"
    by (simp add: booking_L1_def staff_S1_def)
  note T = staff_complete_already_completed [OF f c, of one_am_day_4 staff_S1 "Some ''again''"]
  have e: "fst (staff_complete_step one_am_day_4 (store_with_steps [step_meeting, step_survey])
        staff_S1 ''s1'' (Some ''again'')) = Inl (400, ''Step is already completed'')"
    using T [THEN conjunct2, THEN conjunct2] u b a by blast
  have s: "snd (staff_complete_step one_am_day_4 (store_with_steps [step_meeting, step_survey])
        staff_S1 ''s1'' (Some ''again'')) = store_with_steps [step_meeting, step_survey]"
    using T [THEN conjunct1] .
  from e s have "staff_complete_step one_am_day_4 (store_with_steps [step_meeting, step_survey])
        staff_S1 ''s1'' (Some ''again'')
      = (Inl (400, ''Step is already completed''), store_with_steps [step_meeting, step_survey])"
    by (simp add: prod_eq_iff)
  with f c u b a show ?thesis by blast
qed

subsection \<open>Certificate issuance\<close>









lemma cascade_incomplete:
  assumes "booking_findUnique (bookings st2) i = Some lead"
    and "\<not> (filter (\<lambda>s. s_name s \<noteq> ''certificate'') (steps_of_lead st2 i) \<noteq> []
           \<and> list_all s_completed (filter (\<lambda>s. s_name s \<noteq> ''certificate'') (steps_of_lead st2 i)))"
  shows "certificate_cascade gen now st2 i = (st2, [])"
  using assms by (auto simp: certificate_cascade_def Let_def)























end
